theory Spec2Isabelle
  imports Main "HOL-Library.AList" "HOL-Library.Word"
begin

section \<open>Strings\<close>

text \<open>
  Python strings are modelled as lists of 8-bit characters (code points below 256).
  \<open>is_space\<close> is \<^verbatim>\<open>str.isspace\<close> on that range: TAB, LF, VT, FF, CR, the four
  separators FS, GS, RS, US, the blank, NEL and the no-break space.
\<close>

definition is_space :: "char \<Rightarrow> bool" where
  "is_space c = (of_char c \<in> {9, 10, 11, 12, 13, 28, 29, 30, 31, 32, 133, 160 :: nat})"

text \<open>\<^verbatim>\<open>s.strip()\<close>: leading and trailing whitespace removed.\<close>

definition strip :: "string \<Rightarrow> string" where
  "strip s = rev (dropWhile is_space (rev (dropWhile is_space s)))"

text \<open>\<^verbatim>\<open>s.startswith(p)\<close>.\<close>

definition startswith :: "string \<Rightarrow> string \<Rightarrow> bool" where
  "startswith s p = (take (length p) s = p)"

text \<open>\<^verbatim>\<open>p in s\<close> for two strings: \<open>p\<close> occurs in \<open>s\<close> as a contiguous block.\<close>

fun str_contains :: "string \<Rightarrow> string \<Rightarrow> bool" where
  "str_contains [] p = (p = [])"
| "str_contains (c # cs) p = (startswith (c # cs) p \<or> str_contains cs p)"

text \<open>\<^verbatim>\<open>str(n)\<close> for a natural number, as the f-strings of the script print it.\<close>

definition digit_char :: "nat \<Rightarrow> char" where
  "digit_char n = ''0123456789'' ! (n mod 10)"

fun str_nat :: "nat \<Rightarrow> string" where
  "str_nat n = (if n < 10 then [digit_char n] else str_nat (n div 10) @ [digit_char n])"

declare str_nat.simps [simp del]

section \<open>JSON documents\<close>

text \<open>
  What \<^verbatim>\<open>json.load\<close> returns. A Python dict keeps insertion order and holds every key
  once, so an object is an association list; a float is never inspected by the script
  and is carried as its literal.
\<close>

datatype json =
    JNull
  | JBool bool
  | JInt int
  | JFloat string
  | JStr string
  | JList "json list"
  | JDict "(string \<times> json) list"

datatype error = TypeError | AttributeError | KeyError

text \<open>
  Reading a document along a path of keys: \<open>None\<close> when a key is missing or the path
  runs into something that is not an object. Used to state properties only.
\<close>

fun get_path :: "string list \<Rightarrow> json \<Rightarrow> json option" where
  "get_path [] j = Some j"
| "get_path (k # ks) (JDict d) = (case map_of d k of Some v \<Rightarrow> get_path ks v | None \<Rightarrow> None)"
| "get_path (k # ks) _ = None"

text \<open>Every object of a document holds each key once, as a Python dict does.\<close>

fun wf_json :: "json \<Rightarrow> bool" where
  "wf_json (JDict d) = (distinct (map fst d) \<and> (\<forall>p \<in> set d. wf_json (snd p)))"
| "wf_json (JList xs) = (\<forall>x \<in> set xs. wf_json x)"
| "wf_json _ = True"

section \<open>Credentials: \<^verbatim>\<open>load_env_file\<close> and \<^verbatim>\<open>get_config\<close>\<close>



text \<open>Python's truth value of \<^verbatim>\<open>d.get(key)\<close>: set and not the empty string.\<close>

definition truthy :: "string option \<Rightarrow> bool" where
  "truthy v = (case v of None \<Rightarrow> False | Some s \<Rightarrow> s \<noteq> [])"

text \<open>
  \<^verbatim>\<open>os.environ.get(key) or env_file_vars.get(key) or ""\<close>, with the process environment
  as the first argument.
\<close>

definition get_config :: "(string \<rightharpoonup> string) \<Rightarrow> (string \<rightharpoonup> string) \<Rightarrow> string \<Rightarrow> string" where
  "get_config environ env_file_vars key =
     (if truthy (environ key) then the (environ key)
      else if truthy (env_file_vars key) then the (env_file_vars key)
      else [])"

section \<open>\<^verbatim>\<open>get_ark_url\<close>\<close>

definition get_ark_url :: "string \<Rightarrow> bool \<Rightarrow> string" where
  "get_ark_url site coding_plan =
     (if site = ''BytePlus'' then
        (if coding_plan then ''https://ark.ap-southeast.bytepluses.com/api/coding/v3''
         else ''https://ark.ap-southeast.bytepluses.com/api/v3'')
      else
        (if coding_plan then ''https://ark.cn-beijing.volces.com/api/coding/v3''
         else ''https://ark.cn-beijing.volces.com/api/v3''))"

section \<open>\<^verbatim>\<open>deep_merge\<close>\<close>

text \<open>
  \<^verbatim>\<open>result = base.copy()\<close>, then the loop over \<^verbatim>\<open>update.items()\<close> as a fold over the
  items of the update in their order; \<^verbatim>\<open>result[key] = ...\<close> keeps the place of a key the
  dict already holds and appends a new one, which is \<open>AList.update\<close>.
\<close>

fun deep_merge :: "(string \<times> json) list \<Rightarrow> (string \<times> json) list \<Rightarrow> (string \<times> json) list" where
  "deep_merge base upd =
     fold (\<lambda>(key, val) result.
        (case (map_of result key, val) of
           (Some (JDict b), JDict u) \<Rightarrow> AList.update key (JDict (deep_merge b u)) result
         | _ \<Rightarrow> AList.update key val result)) upd base"

declare deep_merge.simps [simp del]

text \<open>
  The value \<^verbatim>\<open>deep_merge\<close> stores under a key: the recursive merge when the result so
  far and the update both hold an object there, the update's value otherwise.
\<close>

fun merge_value :: "json option \<Rightarrow> json \<Rightarrow> json" where
  "merge_value (Some (JDict b)) (JDict u) = JDict (deep_merge b u)"
| "merge_value _ v = v"


text \<open>
  The call of line 187, whose base is whatever \<^verbatim>\<open>config.get("models", {})\<close> returned: a
  list has \<^verbatim>\<open>copy\<close> but takes no string index, so the first item of a non-empty update
  raises \<^verbatim>\<open>TypeError\<close>; every other value that is not a dict has no \<^verbatim>\<open>copy\<close>.
\<close>

fun deep_merge_call :: "json \<Rightarrow> (string \<times> json) list \<Rightarrow> error + json" where
  "deep_merge_call (JDict b) upd = Inr (JDict (deep_merge b upd))"
| "deep_merge_call (JList xs) upd = (if upd = [] then Inr (JList xs) else Inl TypeError)"
| "deep_merge_call _ upd = Inl AttributeError"

section \<open>Python's operations on a loaded document\<close>

text \<open>\<^verbatim>\<open>key in obj\<close> for a string key: dict membership, list membership, substring.\<close>

fun py_in :: "string \<Rightarrow> json \<Rightarrow> error + bool" where
  "py_in key (JDict d) = Inr (map_of d key \<noteq> None)"
| "py_in key (JList xs) = Inr (JStr key \<in> set xs)"
| "py_in key (JStr s) = Inr (str_contains s key)"
| "py_in key _ = Inl TypeError"

text \<open>\<^verbatim>\<open>obj[key] = v\<close> and \<^verbatim>\<open>obj[key]\<close> for a string key: only a dict takes one.\<close>

fun py_setitem :: "string \<Rightarrow> json \<Rightarrow> json \<Rightarrow> error + json" where
  "py_setitem key v (JDict d) = Inr (JDict (AList.update key v d))"
| "py_setitem key v _ = Inl TypeError"

fun py_getitem :: "string \<Rightarrow> json \<Rightarrow> error + json" where
  "py_getitem key (JDict d) = (case map_of d key of Some v \<Rightarrow> Inr v | None \<Rightarrow> Inl KeyError)"
| "py_getitem key _ = Inl TypeError"

text \<open>\<^verbatim>\<open>obj.get(key, default)\<close>: a method of dicts only.\<close>

fun py_get :: "string \<Rightarrow> json \<Rightarrow> json \<Rightarrow> error + json" where
  "py_get key dflt (JDict d) = Inr (case map_of d key of Some v \<Rightarrow> v | None \<Rightarrow> dflt)"
| "py_get key dflt _ = Inl AttributeError"

text \<open>\<^verbatim>\<open>if key not in obj: obj[key] = {}\<close>.\<close>

definition ensure :: "string \<Rightarrow> json \<Rightarrow> error + json" where
  "ensure key obj =
     (case py_in key obj of
        Inl e \<Rightarrow> Inl e
      | Inr present \<Rightarrow> if present then Inr obj else py_setitem key (JDict []) obj)"

text \<open>
  A statement that works on \<^verbatim>\<open>obj[key]\<close> in place: the sub-object is read, changed by
  \<open>f\<close> and put back under its key (the document is a tree: nothing else refers to it).
\<close>

definition at_key :: "string \<Rightarrow> (json \<Rightarrow> error + json) \<Rightarrow> json \<Rightarrow> error + json" where
  "at_key key f obj =
     (case py_getitem key obj of
        Inl e \<Rightarrow> Inl e
      | Inr sub \<Rightarrow> (case f sub of Inl e \<Rightarrow> Inl e | Inr sub' \<Rightarrow> py_setitem key sub' obj))"

text \<open>Statements in sequence; the first exception ends the run.\<close>

fun seq :: "('s \<Rightarrow> 'e + 's) list \<Rightarrow> 's \<Rightarrow> 'e + 's" where
  "seq [] s = Inr s"
| "seq (f # fs) s = (case f s of Inl e \<Rightarrow> Inl e | Inr s' \<Rightarrow> seq fs s')"

section \<open>The configuration step of \<^verbatim>\<open>main\<close> (lines 130-293)\<close>

text \<open>
  The state of the run: the document \<^verbatim>\<open>config\<close> and the messages passed to \<^verbatim>\<open>log\<close> so
  far (without their time stamp). An uncaught exception ends the run with the messages
  logged before it.
\<close>

type_synonym run = "json \<times> string list"

type_synonym step = "run \<Rightarrow> (error \<times> string list) + run"

definition log :: "string \<Rightarrow> step" where
  "log msg = (\<lambda>(config, logs). Inr (config, logs @ [msg]))"

definition cfg :: "(json \<Rightarrow> error + json) \<Rightarrow> step" where
  "cfg f = (\<lambda>(config, logs).
     case f config of Inl e \<Rightarrow> Inl (e, logs) | Inr config' \<Rightarrow> Inr (config', logs))"

text \<open>The credentials resolved on lines 107-116.\<close>

record creds =
  ark_api_key :: string
  ark_model_id :: string
  ark_coding_plan :: bool
  feishu_app_id :: string
  feishu_app_secret :: string
  telegram_bot_token :: string
  dingtalk_client_id :: string
  dingtalk_client_secret :: string
  wecom_token :: string
  wecom_encoding_aes_key :: string

definition resolve_creds :: "(string \<rightharpoonup> string) \<Rightarrow> (string \<rightharpoonup> string) \<Rightarrow> creds" where
  "resolve_creds environ env_file_vars =
     \<lparr> ark_api_key = get_config environ env_file_vars ''ARK_API_KEY'',
       ark_model_id = get_config environ env_file_vars ''ARK_MODEL_ID'',
       ark_coding_plan = (get_config environ env_file_vars ''ARK_CODING_PLAN'' = ''true''),
       feishu_app_id = get_config environ env_file_vars ''FEISHU_APP_ID'',
       feishu_app_secret = get_config environ env_file_vars ''FEISHU_APP_SECRET'',
       telegram_bot_token = get_config environ env_file_vars ''TELEGRAM_BOT_TOKEN'',
       dingtalk_client_id = get_config environ env_file_vars ''DINGTALK_CLIENT_ID'',
       dingtalk_client_secret = get_config environ env_file_vars ''DINGTALK_CLIENT_SECRET'',
       wecom_token = get_config environ env_file_vars ''WECOM_TOKEN'',
       wecom_encoding_aes_key = get_config environ env_file_vars ''WECOM_ENCODING_AES_KEY'' \<rparr>"

definition SCRIPT_VERSION :: string where
  "SCRIPT_VERSION = ''0203.1''"

text \<open>
  \<^verbatim>\<open>secrets.token_hex(nbytes)\<close>: \<open>nbytes\<close> bytes of the system's random source, each
  written as two lower-case hexadecimal digits. \<open>rnd i\<close> is the \<open>i\<close>-th byte the source
  hands out.
\<close>

definition hex_digit :: "nat \<Rightarrow> char" where
  "hex_digit n = ''0123456789abcdef'' ! (n mod 16)"

definition hex_byte :: "8 word \<Rightarrow> string" where
  "hex_byte b = [hex_digit (unat b div 16), hex_digit (unat b mod 16)]"

definition token_hex :: "nat \<Rightarrow> (nat \<Rightarrow> 8 word) \<Rightarrow> string" where
  "token_hex nbytes rnd = concat (map (\<lambda>i. hex_byte (rnd i)) [0..<nbytes])"

text \<open>Lines 144-150.\<close>

definition main_gateway_token :: "string \<Rightarrow> step" where
  "main_gateway_token gateway_token =
     seq [cfg (ensure ''gateway''),
          cfg (at_key ''gateway'' (ensure ''auth'')),
          cfg (at_key ''gateway'' (at_key ''auth'' (py_setitem ''token'' (JStr gateway_token)))),
          log (''Generated gateway auth token: '' @ take 8 gateway_token @ ''...'')]"

text \<open>The literal \<^verbatim>\<open>ark_config\<close> of lines 157-186.\<close>

definition ark_config :: "string \<Rightarrow> string \<Rightarrow> string \<Rightarrow> string \<Rightarrow> (string \<times> json) list" where
  "ark_config ark_url api_key model_id instance_id =
     [(''mode'', JStr ''merge''),
      (''providers'', JDict
        [(''ark'', JDict
          [(''baseUrl'', JStr ark_url),
           (''apiKey'', JStr api_key),
           (''api'', JStr ''openai-completions''),
           (''models'', JList
             [JDict
               [(''id'', JStr model_id),
                (''name'', JStr model_id),
                (''reasoning'', JBool False),
                (''input'', JList [JStr ''text'']),
                (''cost'', JDict
                  [(''input'', JInt 0), (''output'', JInt 0),
                   (''cacheRead'', JInt 0), (''cacheWrite'', JInt 0)]),
                (''contextWindow'', JInt 200000),
                (''maxTokens'', JInt 8192),
                (''headers'', JDict
                  [(''X-Client-Request-Id'',
                    JStr (''ecs-openclaw/'' @ SCRIPT_VERSION @ ''/'' @ instance_id))]),
                (''compat'', JDict [(''supportsDeveloperRole'', JBool False)])]])])])]"

text \<open>Line 187: \<^verbatim>\<open>config["models"] = deep_merge(config.get("models", {}), ark_config)\<close>.\<close>

definition merge_models :: "(string \<times> json) list \<Rightarrow> json \<Rightarrow> error + json" where
  "merge_models upd config =
     (case py_get ''models'' (JDict []) config of
        Inl e \<Rightarrow> Inl e
      | Inr models \<Rightarrow>
          (case deep_merge_call models upd of
             Inl e \<Rightarrow> Inl e
           | Inr merged \<Rightarrow> py_setitem ''models'' merged config))"

text \<open>Lines 152-197.\<close>

definition main_ark :: "creds \<Rightarrow> string \<Rightarrow> string \<Rightarrow> step" where
  "main_ark c site instance_id =
     (if ark_api_key c \<noteq> [] \<and> ark_model_id c \<noteq> [] then
        seq [log ''Configuring ARK model...'',
             log (''ARK_BASE_URL: '' @ get_ark_url site (ark_coding_plan c)),
             cfg (merge_models
                    (ark_config (get_ark_url site (ark_coding_plan c)) (ark_api_key c)
                       (ark_model_id c) instance_id)),
             cfg (ensure ''agents''),
             cfg (at_key ''agents'' (ensure ''defaults'')),
             cfg (at_key ''agents'' (at_key ''defaults''
                    (py_setitem ''model'' (JDict [(''primary'', JStr (''ark/'' @ ark_model_id c))])))),
             cfg (at_key ''agents'' (at_key ''defaults''
                    (py_setitem ''models'' (JDict [(''ark/'' @ ark_model_id c, JDict [])])))),
             log ''ARK configured successfully'']
      else log ''Skipping ARK config (ARK_API_KEY or ARK_MODEL_ID not set)'')"

text \<open>Lines 199-200.\<close>

definition main_channels :: step where
  "main_channels = cfg (ensure ''channels'')"

text \<open>Lines 202-209 and 211-218.\<close>

definition main_feishu_app_id :: "creds \<Rightarrow> step" where
  "main_feishu_app_id c =
     (if feishu_app_id c \<noteq> [] then
        seq [log ''Configuring Feishu App ID...'',
             cfg (at_key ''channels'' (ensure ''feishu'')),
             cfg (at_key ''channels'' (at_key ''feishu''
                    (py_setitem ''appId'' (JStr (feishu_app_id c))))),
             log ''Feishu App ID configured'']
      else log ''Skipping Feishu App ID (not set)'')"

definition main_feishu_app_secret :: "creds \<Rightarrow> step" where
  "main_feishu_app_secret c =
     (if feishu_app_secret c \<noteq> [] then
        seq [log ''Configuring Feishu App Secret...'',
             cfg (at_key ''channels'' (ensure ''feishu'')),
             cfg (at_key ''channels'' (at_key ''feishu''
                    (py_setitem ''appSecret'' (JStr (feishu_app_secret c))))),
             log ''Feishu App Secret configured'']
      else log ''Skipping Feishu App Secret (not set)'')"

text \<open>Lines 220-236.\<close>

definition telegram_block :: "string \<Rightarrow> json" where
  "telegram_block bot_token =
     JDict [(''enabled'', JBool True),
            (''dmPolicy'', JStr ''pairing''),
            (''botToken'', JStr bot_token),
            (''groupPolicy'', JStr ''allowlist''),
            (''streamMode'', JStr ''partial'')]"

definition main_telegram :: "creds \<Rightarrow> step" where
  "main_telegram c =
     (if telegram_bot_token c \<noteq> [] then
        seq [log ''Configuring Telegram...'',
             cfg (at_key ''channels'' (py_setitem ''telegram'' (telegram_block (telegram_bot_token c)))),
             cfg (ensure ''plugins''),
             cfg (at_key ''plugins'' (ensure ''entries'')),
             cfg (at_key ''plugins'' (at_key ''entries''
                    (py_setitem ''telegram'' (JDict [(''enabled'', JBool True)])))),
             log ''Telegram configured'']
      else log ''Skipping Telegram (not set)'')"

text \<open>
  Lines 250-256, and again 279-285: the nested flag
  \<^verbatim>\<open>gateway.http.endpoints.chatCompletions.enabled\<close>.
\<close>

definition enable_chat_completions :: "step list" where
  "enable_chat_completions =
     [cfg (at_key ''gateway'' (ensure ''http'')),
      cfg (at_key ''gateway'' (at_key ''http'' (ensure ''endpoints''))),
      cfg (at_key ''gateway'' (at_key ''http'' (at_key ''endpoints'' (ensure ''chatCompletions'')))),
      cfg (at_key ''gateway'' (at_key ''http'' (at_key ''endpoints'' (at_key ''chatCompletions''
             (py_setitem ''enabled'' (JBool True))))))]"

text \<open>Lines 238-259. Line 240 reads the token back from the document.\<close>

definition dingtalk_block :: "string \<Rightarrow> string \<Rightarrow> json \<Rightarrow> json" where
  "dingtalk_block client_id client_secret gateway_token =
     JDict [(''enabled'', JBool True),
            (''clientId'', JStr client_id),
            (''clientSecret'', JStr client_secret),
            (''gatewayToken'', gateway_token),
            (''sessionTimeout'', JInt 1800000)]"

definition read_gateway_token :: "json \<Rightarrow> error + json" where
  "read_gateway_token config =
     (case py_getitem ''gateway'' config of
        Inl e \<Rightarrow> Inl e
      | Inr g \<Rightarrow> (case py_getitem ''auth'' g of
                    Inl e \<Rightarrow> Inl e
                  | Inr a \<Rightarrow> py_getitem ''token'' a))"

text \<open>A statement that first reads \<^verbatim>\<open>config["gateway"]["auth"]["token"]\<close>.\<close>

definition with_gateway_token :: "(json \<Rightarrow> step) \<Rightarrow> step" where
  "with_gateway_token body =
     (\<lambda>(config, logs).
        case read_gateway_token config of
          Inl e \<Rightarrow> Inl (e, logs)
        | Inr gateway_token \<Rightarrow> body gateway_token (config, logs))"

definition main_dingtalk :: "creds \<Rightarrow> step" where
  "main_dingtalk c =
     (if dingtalk_client_id c \<noteq> [] \<and> dingtalk_client_secret c \<noteq> [] then
        seq [log ''Configuring DingTalk...'',
             with_gateway_token (\<lambda>gateway_token.
               cfg (at_key ''channels'' (py_setitem ''dingtalk-connector''
                      (dingtalk_block (dingtalk_client_id c) (dingtalk_client_secret c)
                         gateway_token)))),
             cfg (ensure ''gateway''),
             seq enable_chat_completions,
             log ''DingTalk configured (chatCompletions endpoint enabled)'']
      else log ''Skipping DingTalk (DINGTALK_CLIENT_ID or DINGTALK_CLIENT_SECRET not set)'')"

text \<open>Lines 261-288.\<close>

definition wecom_block :: "string \<Rightarrow> string \<Rightarrow> json" where
  "wecom_block token aes_key =
     JDict [(''enabled'', JBool True),
            (''webhookPath'', JStr ''/wecom''),
            (''token'', JStr token),
            (''encodingAESKey'', JStr aes_key)]"

definition aes_key_warning :: "string \<Rightarrow> string" where
  "aes_key_warning aes_key =
     ''Warning: EncodingAESKey should be 43 characters (got '' @ str_nat (length aes_key) @ '')''"

definition main_wecom :: "creds \<Rightarrow> step" where
  "main_wecom c =
     (if wecom_token c \<noteq> [] \<and> wecom_encoding_aes_key c \<noteq> [] then
        seq [log ''Configuring WeCom...'',
             (if length (wecom_encoding_aes_key c) \<noteq> 43
              then log (aes_key_warning (wecom_encoding_aes_key c)) else Inr),
             cfg (at_key ''channels'' (py_setitem ''wecom''
                    (wecom_block (wecom_token c) (wecom_encoding_aes_key c)))),
             log ''Enabling public access for WeCom...'',
             cfg (ensure ''gateway''),
             cfg (at_key ''gateway'' (py_setitem ''bind'' (JStr ''lan''))),
             cfg (at_key ''gateway'' (ensure ''controlUi'')),
             cfg (at_key ''gateway'' (at_key ''controlUi'' (py_setitem ''enabled'' (JBool True)))),
             cfg (at_key ''gateway'' (at_key ''controlUi''
                    (py_setitem ''allowInsecureAuth'' (JBool True)))),
             seq enable_chat_completions,
             log ''WeCom configured (public access enabled)'']
      else log ''Skipping WeCom (WECOM_TOKEN or WECOM_ENCODING_AES_KEY not set)'')"

text \<open>Lines 290-293; \<open>now\<close> is the formatted UTC time.\<close>

definition main_meta :: "string \<Rightarrow> step" where
  "main_meta now =
     seq [cfg (ensure ''meta''),
          cfg (at_key ''meta'' (py_setitem ''lastTouchedAt'' (JStr now)))]"

text \<open>
  Lines 130-293 as a whole. \<open>existing\<close> is the parsed content of the configuration
  file, \<open>None\<close> when there is no file; \<open>site\<close> and \<open>instance_id\<close> are what the metadata
  service answered (or \<^verbatim>\<open>"unknown"\<close>); \<open>rnd\<close> is the random source and \<open>now\<close> the clock.
  The result is the document handed to \<^verbatim>\<open>json.dump\<close> with the messages logged, or the
  exception that ended the run.
\<close>

definition load_config :: "json option \<Rightarrow> run" where
  "load_config existing =
     (case existing of
        Some config \<Rightarrow> (config, [''Loading existing config from /root/.openclaw/openclaw.json...''])
      | None \<Rightarrow> (JDict [], [''No existing config, starting fresh...'']))"

definition main_config ::
  "creds \<Rightarrow> json option \<Rightarrow> string \<Rightarrow> string \<Rightarrow> (nat \<Rightarrow> 8 word) \<Rightarrow> string \<Rightarrow> (error \<times> string list) + run" where
  "main_config c existing site instance_id rnd now =
     seq [log (''Site: '' @ site),
          log (''Instance ID: '' @ instance_id),
          main_gateway_token (token_hex 24 rnd),
          main_ark c site instance_id,
          main_channels,
          main_feishu_app_id c,
          main_feishu_app_secret c,
          main_telegram c,
          main_dingtalk c,
          main_wecom c,
          main_meta now]
       (load_config existing)"


text \<open>The document of a completed run, and the run with no credential resolved.\<close>

definition document :: "(error \<times> string list) + run \<Rightarrow> json option" where
  "document r = (case r of Inl e \<Rightarrow> None | Inr (config, logs) \<Rightarrow> Some config)"

definition no_creds :: creds where
  "no_creds =
     \<lparr> ark_api_key = [], ark_model_id = [], ark_coding_plan = False, feishu_app_id = [],
       feishu_app_secret = [], telegram_bot_token = [], dingtalk_client_id = [],
       dingtalk_client_secret = [], wecom_token = [], wecom_encoding_aes_key = [] \<rparr>"

fun is_dict :: "json \<Rightarrow> bool" where
  "is_dict (JDict d) = True"
| "is_dict _ = False"

fun items :: "json \<Rightarrow> (string \<times> json) list" where
  "items (JDict d) = d"
| "items _ = []"

section \<open>The memory limits of \<^verbatim>\<open>main\<close> (lines 349-377)\<close>

text \<open>
  \<^verbatim>\<open>s.splitlines()\<close> on 8-bit characters: a line ends at LF, VT, FF, CR (CR LF counts
  once), FS, GS, RS or NEL; the line ends are dropped, and a text that ends with one has
  no empty last line.
\<close>

definition is_linebreak :: "char \<Rightarrow> bool" where
  "is_linebreak c = (of_char c \<in> {10, 11, 12, 13, 28, 29, 30, 133 :: nat})"

fun splitlines_from :: "string \<Rightarrow> string \<Rightarrow> string list" where
  "splitlines_from cur [] = (if cur = [] then [] else [cur])"
| "splitlines_from cur [c] = (if is_linebreak c then [cur] else [cur @ [c]])"
| "splitlines_from cur (c # d # cs) =
     (if c = CHR 0x0D \<and> d = CHR 0x0A then cur # splitlines_from [] cs
      else if is_linebreak c then cur # splitlines_from [] (d # cs)
      else splitlines_from (cur @ [c]) (d # cs))"

definition splitlines :: "string \<Rightarrow> string list" where
  "splitlines s = splitlines_from [] s"

text \<open>\<^verbatim>\<open>"\n".join(lines)\<close>.\<close>

fun join_lines :: "string list \<Rightarrow> string" where
  "join_lines [] = []"
| "join_lines [l] = l"
| "join_lines (l # m # ls) = l @ CHR 0x0A # join_lines (m # ls)"

text \<open>
  \<^verbatim>\<open>s.replace(old, new)\<close>: every occurrence of \<open>old\<close>, found from the left and not
  overlapping, becomes \<open>new\<close>; an empty \<open>old\<close> matches before every character and at
  the end.
\<close>

function py_replace :: "string \<Rightarrow> string \<Rightarrow> string \<Rightarrow> string" where
  "py_replace s old new =
     (if old = [] then new @ concat (map (\<lambda>c. c # new) s)
      else if s = [] then []
      else if startswith s old then new @ py_replace (drop (length old) s) old new
      else hd s # py_replace (tl s) old new)"
  by pat_completeness auto
termination
  by (relation "measure (\<lambda>(s, old, new). length s)") auto

declare py_replace.simps [simp del]

text \<open>
  Lines 349-377, given the total memory read from \<^verbatim>\<open>free -m\<close> and the text of the unit
  file: the text written back to the file (\<open>None\<close> when the file is not written) and
  the messages logged.
\<close>

definition memory_limits :: "int \<Rightarrow> string \<Rightarrow> string option \<times> string list" where
  "memory_limits total_mem_mb content =
     (if total_mem_mb > 0 then
        (let memory_max = str_nat (nat (total_mem_mb * 80 div 100)) @ ''M'';
             memory_high = str_nat (nat (total_mem_mb * 75 div 100)) @ ''M'';
             msg = ''Total memory: '' @ str_nat (nat total_mem_mb) @ ''MB, MemoryMax: ''
                     @ memory_max @ '', MemoryHigh: '' @ memory_high;
             lines = filter (\<lambda>line. \<not> (startswith (strip line) ''MemoryMax=''
                                       \<or> startswith (strip line) ''MemoryHigh=''))
                       (splitlines content);
             content' = join_lines lines
         in if str_contains content' ''[Service]'' then
              (Some (py_replace content' ''[Service]''
                       (''[Service]'' @ [CHR 0x0A] @ ''MemoryMax='' @ memory_max
                          @ [CHR 0x0A] @ ''MemoryHigh='' @ memory_high)),
               [msg, ''Memory limits configured in service file''])
            else (None, [msg, ''Warning: [Service] section not found in service file'']))
      else (None, [''Warning: Could not determine total memory'']))"

section \<open>The service loops of \<^verbatim>\<open>main\<close> (lines 391-423)\<close>















section \<open>Reading a run\<close>

text \<open>
  The document the configuration step starts from: the parsed file, or the empty
  object when there is no file.
\<close>

definition prior :: "json option \<Rightarrow> json" where
  "prior existing = fst (load_config existing)"

text \<open>
  Two ways to describe what a statement does to the document when it completes:
  \<open>keeps proj p f\<close>, the value under the path \<open>p\<close> is what it was, and
  \<open>sets proj p v f\<close>, the value under \<open>p\<close> is \<open>v\<close> afterwards. \<open>proj\<close> picks the
  document out of the state.
\<close>

definition keeps :: "('s \<Rightarrow> json) \<Rightarrow> string list \<Rightarrow> ('s \<Rightarrow> 'e + 's) \<Rightarrow> bool" where
  "keeps proj p f = (\<forall>s s'. f s = Inr s' \<longrightarrow> get_path p (proj s') = get_path p (proj s))"

definition sets :: "('s \<Rightarrow> json) \<Rightarrow> string list \<Rightarrow> json \<Rightarrow> ('s \<Rightarrow> 'e + 's) \<Rightarrow> bool" where
  "sets proj p v f = (\<forall>s s'. f s = Inr s' \<longrightarrow> get_path p (proj s') = Some v)"

text \<open>
  \<open>keeps_top proj k P f\<close>: when the document holds a value with property \<open>P\<close> under the
  top-level key \<open>k\<close>, it still holds one after \<open>f\<close>.
\<close>

definition keeps_top ::
  "('s \<Rightarrow> json) \<Rightarrow> string \<Rightarrow> (json \<Rightarrow> bool) \<Rightarrow> ('s \<Rightarrow> 'e + 's) \<Rightarrow> bool" where
  "keeps_top proj k P f =
     (\<forall>s s' v. f s = Inr s' \<longrightarrow> get_path [k] (proj s) = Some v \<longrightarrow> P v \<longrightarrow>
        (\<exists>v'. get_path [k] (proj s') = Some v' \<and> P v'))"

text \<open>The messages of a run, completed or not.\<close>

definition run_logs :: "(error \<times> string list) + run \<Rightarrow> string list" where
  "run_logs r = (case r of Inl (e, logs) \<Rightarrow> logs | Inr (config, logs) \<Rightarrow> logs)"

text \<open>The warning of line 264, recognised by how it starts.\<close>

definition is_aes_warning :: "string \<Rightarrow> bool" where
  "is_aes_warning msg = startswith msg ''Warning: EncodingAESKey''"

text \<open>
  \<open>adds P ms f\<close>: of the messages with property \<open>P\<close>, a completed \<open>f\<close> logs exactly
  \<open>ms\<close>.
\<close>

definition adds :: "(string \<Rightarrow> bool) \<Rightarrow> string list \<Rightarrow> step \<Rightarrow> bool" where
  "adds P ms f = (\<forall>c l c' l'. f (c, l) = Inr (c', l') \<longrightarrow> filter P l' = filter P l @ ms)"

text \<open>
  \<open>blind_op k f\<close> and \<open>blind k f\<close>: whether \<open>f\<close> completes on an object that has the key
  \<open>k\<close> does not depend on the value under \<open>k\<close>, which it leaves alone.
\<close>

definition blind_op :: "string \<Rightarrow> (json \<Rightarrow> error + json) \<Rightarrow> bool" where
  "blind_op k f =
     (\<forall>d c' y. f (JDict d) = Inr c' \<longrightarrow> map_of d k \<noteq> None \<longrightarrow>
        (\<exists>d'. c' = JDict d' \<and> map_of d' k \<noteq> None \<and>
              f (JDict (AList.update k y d)) = Inr (JDict (AList.update k y d'))))"

definition blind :: "string \<Rightarrow> step \<Rightarrow> bool" where
  "blind k f =
     (\<forall>d l c' l' y l2. f (JDict d, l) = Inr (c', l') \<longrightarrow> map_of d k \<noteq> None \<longrightarrow>
        (\<exists>d' l2'. c' = JDict d' \<and> map_of d' k \<noteq> None \<and>
              f (JDict (AList.update k y d), l2) = Inr (JDict (AList.update k y d'), l2')))"

section \<open>When merging is associative\<close>

text \<open>
  \<open>mergeable a b c\<close>: there is no path of keys at which \<open>a\<close> and \<open>c\<close> both hold an object
  while \<open>b\<close> holds a value that is not an object.
\<close>

fun mergeable ::
  "(string \<times> json) list \<Rightarrow> (string \<times> json) list \<Rightarrow> (string \<times> json) list \<Rightarrow> bool" where
  "mergeable a b c =
     (\<forall>p \<in> set a.
        (case (snd p, map_of b (fst p), map_of c (fst p)) of
           (JDict x, Some (JDict y), Some (JDict z)) \<Rightarrow> mergeable x y z
         | (JDict x, Some (JDict y), _) \<Rightarrow> True
         | (JDict x, Some _, Some (JDict z)) \<Rightarrow> False
         | _ \<Rightarrow> True))"

declare mergeable.simps [simp del]

section \<open>Properties of \<^verbatim>\<open>deep_merge\<close>\<close>

lemma deep_merge_Nil: "deep_merge base [] = base"
  by (simp add: deep_merge.simps)

lemma deep_merge_Cons:
  "deep_merge base ((k, v) # us) = deep_merge (AList.update k (merge_value (map_of base k) v) base) us"
proof -
  have "(case (map_of base k, v) of
           (Some (JDict b), JDict u) \<Rightarrow> AList.update k (JDict (deep_merge b u)) base
         | _ \<Rightarrow> AList.update k v base) = AList.update k (merge_value (map_of base k) v) base"
    by (cases "map_of base k"; cases v) (auto split: json.splits)
  then show ?thesis
    by (simp add: deep_merge.simps [of base "(k, v) # us"] deep_merge.simps [of _ us])
qed

lemma map_of_deep_merge:
  "distinct (map fst upd) \<Longrightarrow>
   map_of (deep_merge base upd) k =
     (case map_of upd k of None \<Rightarrow> map_of base k | Some v \<Rightarrow> Some (merge_value (map_of base k) v))"
proof (induction upd arbitrary: base)
  case Nil
  then show ?case by (simp add: deep_merge_Nil)
next
  case (Cons p us)
  obtain k' v' where p: "p = (k', v')" by (cases p)
  from Cons.prems p have d: "distinct (map fst us)" and nk: "k' \<notin> fst ` set us" by auto
  from nk have none: "map_of us k' = None" by (simp add: map_of_eq_None_iff)
  show ?case
    unfolding p deep_merge_Cons Cons.IH [OF d]
    using none by (auto simp: update_conv' split: option.splits)
qed

lemma keys_deep_merge:
  "distinct (map fst upd) \<Longrightarrow>
   map fst (deep_merge base upd) = map fst base @ filter (\<lambda>k. k \<notin> set (map fst base)) (map fst upd)"
proof (induction upd arbitrary: base)
  case Nil
  then show ?case by (simp add: deep_merge_Nil)
next
  case (Cons p us)
  obtain k' v' where p: "p = (k', v')" by (cases p)
  from Cons.prems p have d: "distinct (map fst us)" and nk: "k' \<notin> set (map fst us)" by auto
  let ?b = "AList.update k' (merge_value (map_of base k') v') base"
  have keys: "map fst ?b = (if k' \<in> set (map fst base) then map fst base else map fst base @ [k'])"
    by (rule update_keys)
  have flt: "filter (\<lambda>k. k \<notin> set (map fst ?b)) (map fst us) = filter (\<lambda>k. k \<notin> set (map fst base)) (map fst us)"
    using nk by (intro filter_cong) (auto simp: keys)
  show ?case
    unfolding p deep_merge_Cons Cons.IH [OF d] flt
    by (simp add: keys)
qed

lemma distinct_deep_merge:
  "distinct (map fst base) \<Longrightarrow> distinct (map fst (deep_merge base upd))"
proof (induction upd arbitrary: base)
  case Nil
  then show ?case by (simp add: deep_merge_Nil)
next
  case (Cons p us)
  obtain k' v' where p: "p = (k', v')" by (cases p)
  show ?case unfolding p deep_merge_Cons
    by (rule Cons.IH) (simp add: distinct_update Cons.prems)
qed

lemma alist_eqI:
  "distinct (map fst xs) \<Longrightarrow> map fst xs = map fst ys \<Longrightarrow> map_of xs = map_of ys \<Longrightarrow> xs = ys"
proof (induction xs arbitrary: ys)
  case Nil
  then show ?case by simp
next
  case (Cons x xs)
  then obtain y ys' where ys: "ys = y # ys'" by (cases ys) auto
  from Cons.prems ys have k: "fst x = fst y" and ks: "map fst xs = map fst ys'" by auto
  have eq: "map_of (x # xs) k = map_of (y # ys') k" for k
    using Cons.prems(3) unfolding ys by (rule fun_cong)
  from eq [of "fst x"] k have xy: "x = y" by (cases x; cases y) simp
  have "map_of xs = map_of ys'"
  proof
    fix k
    show "map_of xs k = map_of ys' k"
    proof (cases "k = fst x")
      case True
      from Cons.prems(1) have "fst x \<notin> fst ` set xs" by simp
      moreover have "fst ` set xs = fst ` set ys'"
        using arg_cong [OF ks, of set] by simp
      ultimately have "map_of xs k = None" "map_of ys' k = None"
        using True by (simp_all add: map_of_eq_None_iff)
      then show ?thesis by simp
    next
      case False
      with eq [of k] xy show ?thesis by (cases x) simp
    qed
  qed
  with Cons.IH [of ys'] Cons.prems(1) ks xy ys show ?case by simp
qed


lemma wf_json_value: "wf_json (JDict d) \<Longrightarrow> map_of d k = Some v \<Longrightarrow> wf_json v"
  by (auto dest: map_of_SomeD)

lemma mergeable_value:
  "mergeable a b c \<Longrightarrow> map_of a k = Some (JDict x) \<Longrightarrow> map_of b k = Some (JDict y) \<Longrightarrow>
   map_of c k = Some (JDict z) \<Longrightarrow> mergeable x y z"
  using bspec [of "set a" _ "(k, JDict x)"] map_of_SomeD [of a k "JDict x"]
  by (subst (asm) mergeable.simps) fastforce

lemma mergeable_clash:
  "mergeable a b c \<Longrightarrow> map_of a k = Some (JDict x) \<Longrightarrow> map_of b k = Some bv \<Longrightarrow>
   map_of c k = Some (JDict z) \<Longrightarrow> \<exists>y. bv = JDict y"
  using bspec [of "set a" _ "(k, JDict x)"] map_of_SomeD [of a k "JDict x"]
  by (subst (asm) mergeable.simps) (cases bv; fastforce)

lemma merge_value_assoc_step:
  assumes wa: "wf_json (JDict a)" and wb: "wf_json (JDict b)" and wc: "wf_json (JDict c)"
    and m: "mergeable a b c"
    and IH: "\<And>x y z. map_of a k = Some (JDict x) \<Longrightarrow> map_of b k = Some (JDict y) \<Longrightarrow>
               map_of c k = Some (JDict z) \<Longrightarrow>
               deep_merge (deep_merge x y) z = deep_merge x (deep_merge y z)"
  shows "map_of (deep_merge (deep_merge a b) c) k = map_of (deep_merge a (deep_merge b c)) k"
proof -
  from wa wb wc have da: "distinct (map fst a)" and db: "distinct (map fst b)"
    and dc: "distinct (map fst c)" by simp_all
  have dbc: "distinct (map fst (deep_merge b c))" by (rule distinct_deep_merge [OF db])
  show ?thesis
  proof (cases "map_of c k")
    case None
    then show ?thesis
      by (simp add: map_of_deep_merge dc db dbc split: option.splits)
  next
    case c: (Some cv)
    show ?thesis
    proof (cases "map_of b k")
      case None
      with c show ?thesis
        by (simp add: map_of_deep_merge dc db dbc split: option.splits)
    next
      case b: (Some bv)
      show ?thesis
      proof (cases "map_of a k")
        case None
        with b c show ?thesis
          by (simp add: map_of_deep_merge dc db dbc split: option.splits)
      next
        case a: (Some av)
        show ?thesis
        proof (cases "\<exists>z. cv = JDict z")
          case False
          then have "merge_value u cv = cv" for u
            by (cases u; cases cv) (auto split: json.splits)
          with a b c show ?thesis
            by (simp add: map_of_deep_merge dc db dbc)
        next
          case True
          then obtain z where z: "cv = JDict z" by blast
          show ?thesis
          proof (cases "\<exists>x. av = JDict x")
            case False
            then have "merge_value (Some av) u = u" for u
              by (cases av; cases u) auto
            with a b c show ?thesis
              by (simp add: map_of_deep_merge dc db dbc)
          next
            case True
            then obtain x where x: "av = JDict x" by blast
            from mergeable_clash [OF m a [unfolded x] b c [unfolded z]]
            obtain y where y: "bv = JDict y" by blast
            from IH [OF a [unfolded x] b [unfolded y] c [unfolded z]]
            show ?thesis using a b c x y z
              by (simp add: map_of_deep_merge dc db dbc)
          qed
        qed
      qed
    qed
  qed
qed

lemma deep_merge_assoc_aux:
  "\<forall>a b c. j = JDict a \<longrightarrow> wf_json (JDict a) \<longrightarrow> wf_json (JDict b) \<longrightarrow> wf_json (JDict c) \<longrightarrow>
     mergeable a b c \<longrightarrow> deep_merge (deep_merge a b) c = deep_merge a (deep_merge b c)"
proof (induction j)
  case (JDict d)
  show ?case
  proof (intro allI impI)
    fix a b c
    assume eq: "JDict d = JDict a" and wa: "wf_json (JDict a)" and wb: "wf_json (JDict b)"
      and wc: "wf_json (JDict c)" and m: "mergeable a b c"
    from wa wb wc have da: "distinct (map fst a)" and db: "distinct (map fst b)"
      and dc: "distinct (map fst c)" by simp_all
    have dbc: "distinct (map fst (deep_merge b c))" by (rule distinct_deep_merge [OF db])
    have dab: "distinct (map fst (deep_merge a b))" by (rule distinct_deep_merge [OF da])
    have IH: "deep_merge (deep_merge x y) z = deep_merge x (deep_merge y z)"
      if "map_of a k = Some (JDict x)" "map_of b k = Some (JDict y)" "map_of c k = Some (JDict z)"
      for k x y z
    proof -
      from that(1) have mem: "(k, JDict x) \<in> set d" using eq by (auto dest: map_of_SomeD)
      have "wf_json (JDict x)" "wf_json (JDict y)" "wf_json (JDict z)"
        using that wa wb wc by (blast intro: wf_json_value)+
      moreover have "mergeable x y z" using m that by (rule mergeable_value)
      ultimately show ?thesis
        using JDict.IH [OF mem, of "JDict x"] by simp
    qed
    show "deep_merge (deep_merge a b) c = deep_merge a (deep_merge b c)"
    proof (rule alist_eqI)
      show "distinct (map fst (deep_merge (deep_merge a b) c))"
        by (rule distinct_deep_merge [OF dab])
      show "map fst (deep_merge (deep_merge a b) c) = map fst (deep_merge a (deep_merge b c))"
      proof -
        have "filter (\<lambda>k. k \<notin> set (map fst a @ filter (\<lambda>k. k \<notin> set (map fst a)) (map fst b))) (map fst c)
            = filter (\<lambda>k. k \<notin> set (map fst a)) (filter (\<lambda>k. k \<notin> set (map fst b)) (map fst c))"
          by (auto intro: filter_cong)
        then show ?thesis
          unfolding keys_deep_merge [OF dc] keys_deep_merge [OF db] keys_deep_merge [OF dbc]
          by simp
      qed
      show "map_of (deep_merge (deep_merge a b) c) = map_of (deep_merge a (deep_merge b c))"
      proof
        fix k
        show "map_of (deep_merge (deep_merge a b) c) k = map_of (deep_merge a (deep_merge b c)) k"
          using wa wb wc m IH by (rule merge_value_assoc_step)
      qed
    qed
  qed
qed simp_all

lemma deep_merge_assoc:
  "wf_json (JDict a) \<Longrightarrow> wf_json (JDict b) \<Longrightarrow> wf_json (JDict c) \<Longrightarrow> mergeable a b c \<Longrightarrow>
   deep_merge (deep_merge a b) c = deep_merge a (deep_merge b c)"
  using deep_merge_assoc_aux [of "JDict a"] by blast


text \<open>
  C3 (amended). For an update that holds each key once: where base and update both hold
  an object under a key, the result holds their recursive merge; where the update's
  value is not an object (a list, say), the result holds exactly that value, whatever
  the base held. The two examples of the specification evaluate as stated. Merging is
  associative for documents that hold each key once, provided there is no path at
  which the first and third operand hold an object and the second a value that is not
  an object.
\<close>

theorem deep_merge_spec:
  "(distinct (map fst upd) \<longrightarrow>
      (\<forall>k b u. map_of base k = Some (JDict b) \<longrightarrow> map_of upd k = Some (JDict u) \<longrightarrow>
         map_of (deep_merge base upd) k = Some (JDict (deep_merge b u))) \<and>
      (\<forall>k v. map_of upd k = Some v \<longrightarrow> \<not> is_dict v \<longrightarrow>
         map_of (deep_merge base upd) k = Some v) \<and>
      (\<forall>k. map_of upd k = None \<longrightarrow> map_of (deep_merge base upd) k = map_of base k)) \<and>
   deep_merge [(''a'', JDict [(''x'', JInt 1)])] [(''a'', JDict [(''y'', JInt 2)])]
     = [(''a'', JDict [(''x'', JInt 1), (''y'', JInt 2)])] \<and>
   deep_merge [(''a'', JList [JInt 1])] [(''a'', JList [JInt 2])] = [(''a'', JList [JInt 2])] \<and>
   (wf_json (JDict a) \<longrightarrow> wf_json (JDict b') \<longrightarrow> wf_json (JDict c) \<longrightarrow> mergeable a b' c \<longrightarrow>
      deep_merge (deep_merge a b') c = deep_merge a (deep_merge b' c))"
proof -
  have repl: "merge_value u v = v" if "\<not> is_dict v" for u v
    using that by (cases u; cases v) (auto split: json.splits)
  have "map_of (deep_merge base upd) k = Some v"
    if "distinct (map fst upd)" "map_of upd k = Some v" "\<not> is_dict v" for k v
    using that by (simp add: map_of_deep_merge repl)
  moreover have "map_of (deep_merge base upd) k = Some (JDict (deep_merge b u))"
    if "distinct (map fst upd)" "map_of base k = Some (JDict b)" "map_of upd k = Some (JDict u)"
    for k b u
    using that by (simp add: map_of_deep_merge)
  moreover have "map_of (deep_merge base upd) k = map_of base k"
    if "distinct (map fst upd)" "map_of upd k = None" for k
    using that by (simp add: map_of_deep_merge)
  moreover have "deep_merge [(''a'', JDict [(''x'', JInt 1)])] [(''a'', JDict [(''y'', JInt 2)])]
     = [(''a'', JDict [(''x'', JInt 1), (''y'', JInt 2)])]"
    by (simp add: deep_merge_Cons deep_merge_Nil)
  moreover have "deep_merge [(''a'', JList [JInt 1])] [(''a'', JList [JInt 2])]
     = [(''a'', JList [JInt 2])]"
    by (simp add: deep_merge_Cons deep_merge_Nil)
  ultimately show ?thesis
    using deep_merge_assoc [of a b' c] by blast
qed

theorem deep_merge_spec_witness:
  "distinct (map fst [(''k'', JDict [(''y'', JInt 2)]), (''l'', JList [JInt 2])]) \<and>
   map_of (deep_merge [(''k'', JDict [(''x'', JInt 1)]), (''l'', JList [JInt 1])]
                      [(''k'', JDict [(''y'', JInt 2)]), (''l'', JList [JInt 2])]) ''k''
     = Some (JDict (deep_merge [(''x'', JInt 1)] [(''y'', JInt 2)])) \<and>
   map_of (deep_merge [(''k'', JDict [(''x'', JInt 1)]), (''l'', JList [JInt 1])]
                      [(''k'', JDict [(''y'', JInt 2)]), (''l'', JList [JInt 2])]) ''l''
     = Some (JList [JInt 2]) \<and>
   wf_json (JDict [(''k'', JDict [(''j'', JDict [(''x'', JInt 1)])])]) \<and>
   wf_json (JDict [(''k'', JDict [(''j'', JDict [(''y'', JInt 2)])])]) \<and>
   wf_json (JDict [(''k'', JDict [(''j'', JDict [(''z'', JInt 3)])])]) \<and>
   mergeable [(''k'', JDict [(''j'', JDict [(''x'', JInt 1)])])]
             [(''k'', JDict [(''j'', JDict [(''y'', JInt 2)])])]
             [(''k'', JDict [(''j'', JDict [(''z'', JInt 3)])])] \<and>
   deep_merge (deep_merge [(''k'', JDict [(''j'', JDict [(''x'', JInt 1)])])]
                          [(''k'', JDict [(''j'', JDict [(''y'', JInt 2)])])])
              [(''k'', JDict [(''j'', JDict [(''z'', JInt 3)])])]
     = deep_merge [(''k'', JDict [(''j'', JDict [(''x'', JInt 1)])])]
         (deep_merge [(''k'', JDict [(''j'', JDict [(''y'', JInt 2)])])]
                     [(''k'', JDict [(''j'', JDict [(''z'', JInt 3)])])])"
proof -
  have m: "mergeable [(''k'', JDict [(''j'', JDict [(''x'', JInt 1)])])]
             [(''k'', JDict [(''j'', JDict [(''y'', JInt 2)])])]
             [(''k'', JDict [(''j'', JDict [(''z'', JInt 3)])])]"
    by (simp add: mergeable.simps)
  show ?thesis
    using m deep_merge_spec
      [of "[(''k'', JDict [(''y'', JInt 2)]), (''l'', JList [JInt 2])]"
          "[(''k'', JDict [(''x'', JInt 1)]), (''l'', JList [JInt 1])]"
          "[(''k'', JDict [(''j'', JDict [(''x'', JInt 1)])])]"
          "[(''k'', JDict [(''j'', JDict [(''y'', JInt 2)])])]"
          "[(''k'', JDict [(''j'', JDict [(''z'', JInt 3)])])]"]
    by simp
qed

text \<open>
  C3, as stated, fails: here all three documents hold an object under the shared key
  \<open>k\<close>, and the two ways of merging them differ.
\<close>

theorem deep_merge_not_associative:
  "deep_merge
     (deep_merge [(''k'', JDict [(''j'', JDict [(''x'', JInt 1)])])]
                 [(''k'', JDict [(''j'', JInt 5)])])
     [(''k'', JDict [(''j'', JDict [(''y'', JInt 2)])])]
   = [(''k'', JDict [(''j'', JDict [(''y'', JInt 2)])])] \<and>
   deep_merge
     [(''k'', JDict [(''j'', JDict [(''x'', JInt 1)])])]
     (deep_merge [(''k'', JDict [(''j'', JInt 5)])]
                 [(''k'', JDict [(''j'', JDict [(''y'', JInt 2)])])])
   = [(''k'', JDict [(''j'', JDict [(''x'', JInt 1), (''y'', JInt 2)])])] \<and>
   deep_merge
     (deep_merge [(''k'', JDict [(''j'', JDict [(''x'', JInt 1)])])]
                 [(''k'', JDict [(''j'', JInt 5)])])
     [(''k'', JDict [(''j'', JDict [(''y'', JInt 2)])])]
   \<noteq> deep_merge
     [(''k'', JDict [(''j'', JDict [(''x'', JInt 1)])])]
     (deep_merge [(''k'', JDict [(''j'', JInt 5)])]
                 [(''k'', JDict [(''j'', JDict [(''y'', JInt 2)])])])"
  by (simp add: deep_merge_Cons deep_merge_Nil)


section \<open>Properties of the configuration step\<close>

subsection \<open>What a successful operation looks like\<close>

lemma py_setitem_Inr:
  "py_setitem k v c = Inr c' \<Longrightarrow> \<exists>d. c = JDict d \<and> c' = JDict (AList.update k v d)"
  by (cases c) auto

lemma ensure_Inr:
  "ensure k c = Inr c' \<Longrightarrow>
   c' = c \<or> (\<exists>d. c = JDict d \<and> map_of d k = None \<and> c' = JDict (AList.update k (JDict []) d))"
  by (cases c) (auto simp: ensure_def split: if_splits)

lemma at_key_Inr:
  "at_key k f c = Inr c' \<Longrightarrow>
   \<exists>d v v'. c = JDict d \<and> map_of d k = Some v \<and> f v = Inr v' \<and> c' = JDict (AList.update k v' d)"
  by (cases c) (auto simp: at_key_def split: option.splits sum.splits)

lemma merge_models_Inr:
  "merge_models upd c = Inr c' \<Longrightarrow> \<exists>d m. c = JDict d \<and> c' = JDict (AList.update ''models'' m d)"
  by (cases c) (auto simp: merge_models_def split: sum.splits dest!: py_setitem_Inr)

lemma seq_Cons_Inr: "seq (f # fs) s = Inr s' \<longleftrightarrow> (\<exists>t. f s = Inr t \<and> seq fs t = Inr s')"
  by (auto split: sum.splits)

lemma seq_Cons2_Inr:
  "seq (f # g # fs) s = Inr s' \<longleftrightarrow> (\<exists>t. f s = Inr t \<and> seq (g # fs) t = Inr s')"
  by (rule seq_Cons_Inr)


lemma seq_single: "seq [f] s = f s"
  by (simp split: sum.splits)

lemma get_path_Cons_Some:
  "get_path (k # ks) c = Some v \<longleftrightarrow>
   (\<exists>d w. c = JDict d \<and> map_of d k = Some w \<and> get_path ks w = Some v)"
  by (cases c) (auto split: option.splits)

lemma cfg_Inr: "cfg f (c, l) = Inr (c', l') \<longleftrightarrow> f c = Inr c' \<and> l' = l"
  by (auto simp: cfg_def split: sum.splits)

lemma log_Inr: "log m (c, l) = Inr (c', l') \<longleftrightarrow> c' = c \<and> l' = l @ [m]"
  by (auto simp: log_def)

subsection \<open>Paths an operation leaves alone\<close>

lemma keeps_setitem: "k' \<noteq> k \<Longrightarrow> keeps id (k' # ks) (py_setitem k v)"
  by (auto simp: keeps_def update_conv' dest!: py_setitem_Inr)

lemma keeps_ensure: "p \<noteq> [] \<Longrightarrow> p \<noteq> [k] \<Longrightarrow> keeps id p (ensure k)"
proof -
  assume p: "p \<noteq> []" "p \<noteq> [k]"
  then obtain k' ks where pk: "p = k' # ks" by (cases p) auto
  show ?thesis
  proof (cases "k' = k")
    case True
    with p pk obtain k2 ks2 where "ks = k2 # ks2" by (cases ks) auto
    with True pk show ?thesis
      by (auto simp: keeps_def update_conv' dest!: ensure_Inr)
  next
    case False
    with pk show ?thesis by (auto simp: keeps_def update_conv' dest!: ensure_Inr)
  qed
qed

lemma keeps_at_key_other: "k' \<noteq> k \<Longrightarrow> keeps id (k' # ks) (at_key k f)"
  by (auto simp: keeps_def update_conv' dest!: at_key_Inr)

lemma keeps_at_key: "keeps id ks f \<Longrightarrow> keeps id (k # ks) (at_key k f)"
  by (auto simp: keeps_def update_conv' dest!: at_key_Inr)

lemma keeps_merge_models: "k' \<noteq> ''models'' \<Longrightarrow> keeps id (k' # ks) (merge_models upd)"
  by (auto simp: keeps_def update_conv' dest!: merge_models_Inr)

lemma keeps_seq_Nil: "keeps proj p (seq [])"
  by (simp add: keeps_def)

lemma keeps_seq_Cons:
  "keeps proj p f \<Longrightarrow> keeps proj p (seq fs) \<Longrightarrow> keeps proj p (seq (f # fs))"
  by (auto simp: keeps_def seq_Cons_Inr simp del: seq.simps)

lemma keeps_cfg: "keeps id p f \<Longrightarrow> keeps fst p (cfg f)"
  by (auto simp: keeps_def cfg_def split: sum.splits)

lemma keeps_log: "keeps fst p (log m)"
  by (auto simp: keeps_def log_def)

lemma keeps_Inr: "keeps proj p Inr"
  by (simp add: keeps_def)

lemma keeps_with_gateway_token:
  "(\<And>t. keeps fst p (body t)) \<Longrightarrow> keeps fst p (with_gateway_token body)"
  by (auto simp: keeps_def with_gateway_token_def split: sum.splits)

lemmas keeps_rules = keeps_setitem keeps_ensure keeps_at_key_other keeps_at_key keeps_seq_Nil
  keeps_seq_Cons keeps_cfg keeps_log keeps_Inr keeps_merge_models keeps_with_gateway_token

lemma keepsD: "keeps proj p f \<Longrightarrow> f s = Inr s' \<Longrightarrow> get_path p (proj s') = get_path p (proj s)"
  by (simp add: keeps_def)

subsection \<open>Paths an operation writes\<close>

lemma sets_setitem: "sets id [k] v (py_setitem k v)"
  by (auto simp: sets_def update_conv' dest!: py_setitem_Inr)

lemma sets_at_key: "sets id ks v f \<Longrightarrow> sets id (k # ks) v (at_key k f)"
  by (auto simp: sets_def update_conv' dest!: at_key_Inr)

lemma sets_cfg: "sets id p v f \<Longrightarrow> sets fst p v (cfg f)"
  by (auto simp: sets_def cfg_def split: sum.splits)

lemma sets_seq_here:
  "sets proj p v f \<Longrightarrow> keeps proj p (seq fs) \<Longrightarrow> sets proj p v (seq (f # fs))"
  by (auto simp: sets_def keeps_def seq_Cons_Inr simp del: seq.simps)

lemma sets_seq_later: "sets proj p v (seq fs) \<Longrightarrow> sets proj p v (seq (f # fs))"
  by (auto simp: sets_def seq_Cons_Inr simp del: seq.simps)

lemmas sets_rules = sets_setitem sets_at_key sets_cfg sets_seq_later sets_seq_here

lemma setsD: "sets proj p v f \<Longrightarrow> f s = Inr s' \<Longrightarrow> get_path p (proj s') = Some v"
  by (simp add: sets_def)

subsection \<open>The steps of the run, one by one\<close>

lemmas step_defs = main_gateway_token_def main_ark_def main_channels_def
  main_feishu_app_id_def main_feishu_app_secret_def main_telegram_def main_dingtalk_def
  main_wecom_def main_meta_def enable_chat_completions_def

lemmas run_defs = main_config_def step_defs load_config_def cfg_def log_def ensure_def at_key_def
  merge_models_def read_gateway_token_def with_gateway_token_def

lemma sets_token_gateway:
  "sets fst [''gateway'', ''auth'', ''token''] (JStr tok) (main_gateway_token tok)"
  unfolding main_gateway_token_def
  by (simp add: keeps_rules sets_rules del: seq.simps)

lemma keeps_token_steps:
  "keeps fst [''gateway'', ''auth'', ''token''] (main_ark c site instance_id)"
  "keeps fst [''gateway'', ''auth'', ''token''] main_channels"
  "keeps fst [''gateway'', ''auth'', ''token''] (main_feishu_app_id c)"
  "keeps fst [''gateway'', ''auth'', ''token''] (main_feishu_app_secret c)"
  "keeps fst [''gateway'', ''auth'', ''token''] (main_telegram c)"
  "keeps fst [''gateway'', ''auth'', ''token''] (main_dingtalk c)"
  "keeps fst [''gateway'', ''auth'', ''token''] (main_wecom c)"
  "keeps fst [''gateway'', ''auth'', ''token''] (main_meta now)"
  unfolding step_defs by (simp_all add: keeps_rules del: seq.simps)


lemma main_config_token:
  "sets fst [''gateway'', ''auth'', ''token''] (JStr (token_hex 24 rnd))
     (seq [log (''Site: '' @ site),
          log (''Instance ID: '' @ instance_id),
          main_gateway_token (token_hex 24 rnd),
          main_ark c site instance_id,
          main_channels,
          main_feishu_app_id c,
          main_feishu_app_secret c,
          main_telegram c,
          main_dingtalk c,
          main_wecom c,
          main_meta now])"
  by (intro sets_seq_later [of _ _ _ _ "log m" for m] sets_seq_here sets_token_gateway
        keeps_seq_Cons keeps_seq_Nil keeps_token_steps)

lemma main_config_Inr:
  "main_config c existing site instance_id rnd now = Inr r \<longleftrightarrow>
   (\<exists>s0 s1 s2 s3 s4 s5 s6 s7.
      main_gateway_token (token_hex 24 rnd)
        (prior existing,
         snd (load_config existing) @ [''Site: '' @ site, ''Instance ID: '' @ instance_id]) = Inr s0 \<and>
      main_ark c site instance_id s0 = Inr s1 \<and>
      main_channels s1 = Inr s2 \<and>
      main_feishu_app_id c s2 = Inr s3 \<and>
      main_feishu_app_secret c s3 = Inr s4 \<and>
      main_telegram c s4 = Inr s5 \<and>
      main_dingtalk c s5 = Inr s6 \<and>
      main_wecom c s6 = Inr s7 \<and>
      main_meta now s7 = Inr r)"
  unfolding main_config_def prior_def
  by (cases "load_config existing") (simp add: seq_Cons2_Inr seq_single log_def del: seq.simps)




lemma keeps_wecom_steps:
  "keeps fst [''channels'', ''wecom''] (main_meta now)"
  unfolding step_defs by (simp_all add: keeps_rules del: seq.simps)

lemma sets_wecom:
  "wecom_token c \<noteq> [] \<Longrightarrow> wecom_encoding_aes_key c \<noteq> [] \<Longrightarrow>
   sets fst [''channels'', ''wecom'']
     (wecom_block (wecom_token c) (wecom_encoding_aes_key c)) (main_wecom c)"
  unfolding step_defs by (simp add: keeps_rules sets_rules del: seq.simps)











subsection \<open>The token\<close>

lemma token_hex_Suc: "token_hex (Suc n) rnd = token_hex n rnd @ hex_byte (rnd n)"
  by (simp add: token_hex_def)

lemma length_token_hex: "length (token_hex n rnd) = 2 * n"
  by (induction n) (simp_all add: token_hex_Suc, simp_all add: token_hex_def hex_byte_def)

lemma hex_digit_mem: "hex_digit n \<in> set ''0123456789abcdef''"
  unfolding hex_digit_def by (rule nth_mem) simp

lemma set_token_hex: "set (token_hex n rnd) \<subseteq> set ''0123456789abcdef''"
proof (induction n)
  case 0
  then show ?case by (simp add: token_hex_def)
next
  case (Suc n)
  have "set (hex_byte b) \<subseteq> set ''0123456789abcdef''" for b
    unfolding hex_byte_def using hex_digit_mem [of "unat b div 16"] hex_digit_mem [of "unat b mod 16"]
    by simp
  with Suc show ?case by (simp add: token_hex_Suc)
qed

lemma hex_digit_inj: "i < 16 \<Longrightarrow> j < 16 \<Longrightarrow> hex_digit i = hex_digit j \<Longrightarrow> i = j"
proof -
  assume i: "i < 16" and j: "j < 16" and eq: "hex_digit i = hex_digit j"
  have d: "distinct ''0123456789abcdef''" by simp
  have l: "length ''0123456789abcdef'' = 16" by simp
  have mi: "i mod 16 = i" and mj: "j mod 16 = j" using i j by simp_all
  from eq have e: "''0123456789abcdef'' ! i = ''0123456789abcdef'' ! j"
    unfolding hex_digit_def mi mj .
  have li: "i < length ''0123456789abcdef''" unfolding l by (rule i)
  have lj: "j < length ''0123456789abcdef''" unfolding l by (rule j)
  show ?thesis by (rule nth_eq_iff_index_eq [OF d li lj, THEN iffD1, OF e])
qed

lemma unat_byte_less: "unat (b :: 8 word) < 256"
  using unsigned_less [of b, where ?'a = nat] by simp

lemma hex_pair_inj:
  fixes x y :: nat
  assumes x: "x < 256" and y: "y < 256"
    and hi: "hex_digit (x div 16) = hex_digit (y div 16)"
    and lo: "hex_digit (x mod 16) = hex_digit (y mod 16)"
  shows "x = y"
proof -
  from x y have dx: "x div 16 < 16" and dy: "y div 16 < 16" by simp_all
  have h: "x div 16 = y div 16" by (rule hex_digit_inj [OF dx dy hi])
  have mx: "x mod 16 < 16" and my: "y mod 16 < 16" by simp_all
  have m: "x mod 16 = y mod 16" by (rule hex_digit_inj [OF mx my lo])
  have "x = x div 16 * 16 + x mod 16" by (rule div_mult_mod_eq [symmetric])
  also have "\<dots> = y div 16 * 16 + y mod 16" by (simp only: h m)
  also have "\<dots> = y" by (rule div_mult_mod_eq)
  finally show ?thesis .
qed

lemma hex_byte_inj: "hex_byte a = hex_byte b \<Longrightarrow> a = b"
proof -
  assume eq: "hex_byte a = hex_byte b"
  from eq [unfolded hex_byte_def]
  have hi: "hex_digit (unat a div 16) = hex_digit (unat b div 16)"
    and lo: "hex_digit (unat a mod 16) = hex_digit (unat b mod 16)"
    by (simp_all only: list.inject)
  have "unat a = unat b"
    by (rule hex_pair_inj [OF unat_byte_less unat_byte_less hi lo])
  then show ?thesis by (rule word_unat_eq_iff [THEN iffD2])
qed



lemma token_hex_inj: "token_hex n r1 = token_hex n r2 \<Longrightarrow> i < n \<Longrightarrow> r1 i = r2 i"
proof (induction n)
  case 0
  then show ?case by simp
next
  case (Suc n)
  from Suc.prems(1) have "token_hex n r1 = token_hex n r2 \<and> hex_byte (r1 n) = hex_byte (r2 n)"
    by (simp add: token_hex_Suc length_token_hex)
  with Suc show ?case by (cases "i = n") (auto dest: hex_byte_inj)
qed


text \<open>
  C1 (amended). Whenever the configuration step completes, whatever the credentials and
  whatever the loaded document held, \<^verbatim>\<open>gateway.auth.token\<close> of the output is the token
  generated in this run: 48 hexadecimal digits that spell out the 24 random bytes (two
  runs with the same token drew the same 24 bytes).
\<close>

theorem gateway_token_fresh:
  assumes "main_config c existing site instance_id rnd now = Inr (out, logs)"
  shows "get_path [''gateway'', ''auth'', ''token''] out = Some (JStr (token_hex 24 rnd)) \<and>
         length (token_hex 24 rnd) = 48 \<and>
         set (token_hex 24 rnd) \<subseteq> set ''0123456789abcdef'' \<and>
         (\<forall>rnd'. token_hex 24 rnd' = token_hex 24 rnd \<longrightarrow> (\<forall>i<24. rnd' i = rnd i))"
proof -
  have "get_path [''gateway'', ''auth'', ''token''] out = Some (JStr (token_hex 24 rnd))"
    using setsD [OF main_config_token, of site instance_id rnd c now "load_config existing" "(out, logs)"] assms
    by (simp add: main_config_def del: seq.simps)
  moreover have "length (token_hex 24 rnd) = 48" by (simp add: length_token_hex)
  moreover have "\<forall>rnd'. token_hex 24 rnd' = token_hex 24 rnd \<longrightarrow> (\<forall>i<24. rnd' i = rnd i)"
    by (blast intro: token_hex_inj)
  ultimately show ?thesis
    using set_token_hex [of 24 rnd] by blast
qed

lemma token_hex_zero: "token_hex 24 (\<lambda>_. 0) = ''000000000000000000000000000000000000000000000000''"
  by (simp add: token_hex_def hex_byte_def hex_digit_def upt_rec [of _ "numeral n" for n])


theorem gateway_token_fresh_witness:
  "main_config (no_creds\<lparr>telegram_bot_token := ''t''\<rparr>)
     (Some (JDict [(''gateway'', JDict [(''auth'', JDict [(''token'', JStr ''old'')])])]))
     ''unknown'' ''unknown'' (\<lambda>_. 0) ''2026-11-03T00:00:00.000Z''
   = Inr (JDict [(''gateway'', JDict [(''auth'', JDict [(''token'',
                    JStr ''000000000000000000000000000000000000000000000000'')])]),
                 (''channels'', JDict [(''telegram'', telegram_block ''t'')]),
                 (''plugins'', JDict [(''entries'', JDict [(''telegram'', JDict [(''enabled'', JBool True)])])]),
                 (''meta'', JDict [(''lastTouchedAt'', JStr ''2026-11-03T00:00:00.000Z'')])],
          [''Loading existing config from /root/.openclaw/openclaw.json...'',
           ''Site: unknown'', ''Instance ID: unknown'',
           ''Generated gateway auth token: 00000000...'',
           ''Skipping ARK config (ARK_API_KEY or ARK_MODEL_ID not set)'',
           ''Skipping Feishu App ID (not set)'',
           ''Skipping Feishu App Secret (not set)'',
           ''Configuring Telegram...'', ''Telegram configured'',
           ''Skipping DingTalk (DINGTALK_CLIENT_ID or DINGTALK_CLIENT_SECRET not set)'',
           ''Skipping WeCom (WECOM_TOKEN or WECOM_ENCODING_AES_KEY not set)'']) \<and>
   get_path [''gateway'', ''auth'', ''token'']
     (JDict [(''gateway'', JDict [(''auth'', JDict [(''token'',
                    JStr ''000000000000000000000000000000000000000000000000'')])]),
                 (''channels'', JDict [(''telegram'', telegram_block ''t'')]),
                 (''plugins'', JDict [(''entries'', JDict [(''telegram'', JDict [(''enabled'', JBool True)])])]),
                 (''meta'', JDict [(''lastTouchedAt'', JStr ''2026-11-03T00:00:00.000Z'')])])
     = Some (JStr (token_hex 24 (\<lambda>_. 0)))"
proof -
  have run: "main_config (no_creds\<lparr>telegram_bot_token := ''t''\<rparr>)
     (Some (JDict [(''gateway'', JDict [(''auth'', JDict [(''token'', JStr ''old'')])])]))
     ''unknown'' ''unknown'' (\<lambda>_. 0) ''2026-11-03T00:00:00.000Z''
   = Inr (JDict [(''gateway'', JDict [(''auth'', JDict [(''token'',
                    JStr ''000000000000000000000000000000000000000000000000'')])]),
                 (''channels'', JDict [(''telegram'', telegram_block ''t'')]),
                 (''plugins'', JDict [(''entries'', JDict [(''telegram'', JDict [(''enabled'', JBool True)])])]),
                 (''meta'', JDict [(''lastTouchedAt'', JStr ''2026-11-03T00:00:00.000Z'')])],
          [''Loading existing config from /root/.openclaw/openclaw.json...'',
           ''Site: unknown'', ''Instance ID: unknown'',
           ''Generated gateway auth token: 00000000...'',
           ''Skipping ARK config (ARK_API_KEY or ARK_MODEL_ID not set)'',
           ''Skipping Feishu App ID (not set)'',
           ''Skipping Feishu App Secret (not set)'',
           ''Configuring Telegram...'', ''Telegram configured'',
           ''Skipping DingTalk (DINGTALK_CLIENT_ID or DINGTALK_CLIENT_SECRET not set)'',
           ''Skipping WeCom (WECOM_TOKEN or WECOM_ENCODING_AES_KEY not set)''])"
    by (simp add: run_defs no_creds_def token_hex_zero)
  from gateway_token_fresh [OF run] run show ?thesis by (simp only: simp_thms)
qed

text \<open>
  C1, as stated for every loaded document, fails: on a document whose \<^verbatim>\<open>gateway\<close> is not
  an object, line 146 raises \<^verbatim>\<open>TypeError\<close> and the run writes no document at all.
\<close>

theorem gateway_token_run_aborts:
  "main_config no_creds (Some (JDict [(''gateway'', JInt 5)]))
     ''unknown'' ''unknown'' (\<lambda>_. 0) ''2026-11-03T00:00:00.000Z''
   = Inl (TypeError, [''Loading existing config from /root/.openclaw/openclaw.json...'',
                      ''Site: unknown'', ''Instance ID: unknown''])"
  by (simp add: run_defs no_creds_def)

subsection \<open>The provider's base URL\<close>

lemma merge_value_other: "(\<nexists>x. bo = Some (JDict x)) \<Longrightarrow> merge_value bo w = w"
proof (cases bo)
  case None
  then show ?thesis by simp
next
  case (Some a)
  assume "\<nexists>x. bo = Some (JDict x)"
  with Some show ?thesis by (cases a; cases w) simp_all
qed

lemma get_path_deep_merge_leaf:
  "wf_json (JDict upd) \<Longrightarrow> p \<noteq> [] \<Longrightarrow> get_path p (JDict upd) = Some v \<Longrightarrow> \<not> is_dict v \<Longrightarrow>
   get_path p (JDict (deep_merge b upd)) = Some v"
proof (induction p arbitrary: b upd)
  case Nil
  then show ?case by simp
next
  case (Cons k ks)
  from Cons.prems(3) obtain w where w: "map_of upd k = Some w" and rest: "get_path ks w = Some v"
    by (auto split: option.splits)
  from Cons.prems(1) have d: "distinct (map fst upd)" by simp
  have m: "map_of (deep_merge b upd) k = Some (merge_value (map_of b k) w)"
    using w by (simp add: map_of_deep_merge [OF d])
  show ?case
  proof (cases "ks = []")
    case True
    with rest Cons.prems(4) have "merge_value (map_of b k) w = v"
      by (cases "map_of b k"; cases w) (auto split: json.splits)
    with m rest True show ?thesis by simp
  next
    case False
    then obtain k2 ks2 where "ks = k2 # ks2" by (cases ks) auto
    with rest obtain u where u: "w = JDict u" by (cases w) auto
    have wu: "wf_json (JDict u)" using wf_json_value [OF Cons.prems(1) w] u by simp
    have "get_path ks (merge_value (map_of b k) w) = Some v"
    proof (cases "\<exists>x. map_of b k = Some (JDict x)")
      case True
      then obtain x where "map_of b k = Some (JDict x)" by blast
      then show ?thesis using Cons.IH [OF wu False rest [unfolded u] Cons.prems(4), of x] u by simp
    next
      case False
      then have "merge_value (map_of b k) w = w" by (rule merge_value_other)
      with rest show ?thesis by simp
    qed
    with m show ?thesis by simp
  qed
qed

lemma sets_merge_models:
  "wf_json (JDict upd) \<Longrightarrow> p \<noteq> [] \<Longrightarrow> get_path p (JDict upd) = Some v \<Longrightarrow> \<not> is_dict v \<Longrightarrow>
   sets id (''models'' # p) v (merge_models upd)"
proof -
  assume a: "wf_json (JDict upd)" "p \<noteq> []" "get_path p (JDict upd) = Some v" "\<not> is_dict v"
  have "get_path (''models'' # p) c' = Some v" if "merge_models upd c = Inr c'" for c c'
  proof -
    from that obtain d m m' where c: "c = JDict d" and m: "deep_merge_call m upd = Inr m'"
      and c': "c' = JDict (AList.update ''models'' m' d)"
      by (cases c) (auto simp: merge_models_def split: sum.splits)
    from a(2,3) have "upd \<noteq> []" by (cases p; cases upd) auto
    with m obtain b where "m' = JDict (deep_merge b upd)"
      by (cases m) (auto split: if_splits)
    with c' show ?thesis using get_path_deep_merge_leaf [OF a, of b] by (simp add: update_conv')
  qed
  then show ?thesis by (simp add: sets_def)
qed

lemma wf_ark_config: "wf_json (JDict (ark_config url key model iid))"
  by (simp add: ark_config_def)

lemma ark_config_base_url:
  "get_path [''providers'', ''ark'', ''baseUrl''] (JDict (ark_config url key model iid)) = Some (JStr url)"
  by (simp add: ark_config_def)

lemma sets_base_url:
  assumes creds: "ark_api_key c \<noteq> []" "ark_model_id c \<noteq> []"
  shows "sets fst [''models'', ''providers'', ''ark'', ''baseUrl'']
     (JStr (get_ark_url site (ark_coding_plan c))) (main_ark c site instance_id)"
proof -
  let ?p = "[''models'', ''providers'', ''ark'', ''baseUrl'']"
  let ?upd = "ark_config (get_ark_url site (ark_coding_plan c)) (ark_api_key c)
                (ark_model_id c) instance_id"
  let ?rest = "[cfg (ensure ''agents''),
             cfg (at_key ''agents'' (ensure ''defaults'')),
             cfg (at_key ''agents'' (at_key ''defaults''
                    (py_setitem ''model'' (JDict [(''primary'', JStr (''ark/'' @ ark_model_id c))])))),
             cfg (at_key ''agents'' (at_key ''defaults''
                    (py_setitem ''models'' (JDict [(''ark/'' @ ark_model_id c, JDict [])])))),
             log ''ARK configured successfully'']"
  have k: "keeps fst ?p (seq ?rest)"
    by (simp add: keeps_rules del: seq.simps)
  have "sets id ?p (JStr (get_ark_url site (ark_coding_plan c))) (merge_models ?upd)"
    by (rule sets_merge_models [OF wf_ark_config _ ark_config_base_url]) simp_all
  then have "sets fst ?p (JStr (get_ark_url site (ark_coding_plan c)))
      (seq (cfg (merge_models ?upd) # ?rest))"
    by (intro sets_seq_here sets_cfg k)
  then show ?thesis
    unfolding main_ark_def using creds by (simp add: sets_seq_later del: seq.simps)
qed

lemma keeps_base_url_steps:
  "keeps fst [''models'', ''providers'', ''ark'', ''baseUrl''] main_channels"
  "keeps fst [''models'', ''providers'', ''ark'', ''baseUrl''] (main_feishu_app_id c)"
  "keeps fst [''models'', ''providers'', ''ark'', ''baseUrl''] (main_feishu_app_secret c)"
  "keeps fst [''models'', ''providers'', ''ark'', ''baseUrl''] (main_telegram c)"
  "keeps fst [''models'', ''providers'', ''ark'', ''baseUrl''] (main_dingtalk c)"
  "keeps fst [''models'', ''providers'', ''ark'', ''baseUrl''] (main_wecom c)"
  "keeps fst [''models'', ''providers'', ''ark'', ''baseUrl''] (main_meta now)"
  unfolding step_defs by (simp_all add: keeps_rules del: seq.simps)

text \<open>
  C5. \<^verbatim>\<open>get_ark_url\<close> is a table of four URLs indexed by whether the site is
  \<^verbatim>\<open>BytePlus\<close> and by the coding-plan flag; and when an API key and a model id are
  resolved, \<^verbatim>\<open>models.providers.ark.baseUrl\<close> of the document of a completed run is the
  entry of that table for the run's site and flag, whatever the loaded document held.
\<close>

theorem ark_base_url:
  "get_ark_url ''BytePlus'' False = ''https://ark.ap-southeast.bytepluses.com/api/v3'' \<and>
   get_ark_url ''BytePlus'' True = ''https://ark.ap-southeast.bytepluses.com/api/coding/v3'' \<and>
   (site \<noteq> ''BytePlus'' \<longrightarrow>
      get_ark_url site False = ''https://ark.cn-beijing.volces.com/api/v3'' \<and>
      get_ark_url site True = ''https://ark.cn-beijing.volces.com/api/coding/v3'') \<and>
   (ark_api_key c \<noteq> [] \<and> ark_model_id c \<noteq> [] \<and>
    main_config c existing site instance_id rnd now = Inr (out, logs) \<longrightarrow>
      get_path [''models'', ''providers'', ''ark'', ''baseUrl''] out
        = Some (JStr (get_ark_url site (ark_coding_plan c))))"
proof -
  have "get_path [''models'', ''providers'', ''ark'', ''baseUrl''] out
        = Some (JStr (get_ark_url site (ark_coding_plan c)))"
    if creds: "ark_api_key c \<noteq> []" "ark_model_id c \<noteq> []"
      and run: "main_config c existing site instance_id rnd now = Inr (out, logs)"
  proof -
    from run obtain s0 s1 s2 s3 s4 s5 s6 s7 where
      s1: "main_ark c site instance_id s0 = Inr s1" and
      s2: "main_channels s1 = Inr s2" and
      s3: "main_feishu_app_id c s2 = Inr s3" and
      s4: "main_feishu_app_secret c s3 = Inr s4" and
      s5: "main_telegram c s4 = Inr s5" and
      s6: "main_dingtalk c s5 = Inr s6" and
      s7: "main_wecom c s6 = Inr s7" and
      s8: "main_meta now s7 = Inr (out, logs)"
      unfolding main_config_Inr by blast
    show ?thesis
      using setsD [OF sets_base_url [OF creds] s1]
        keepsD [OF keeps_base_url_steps(1) s2] keepsD [OF keeps_base_url_steps(2) s3]
        keepsD [OF keeps_base_url_steps(3) s4] keepsD [OF keeps_base_url_steps(4) s5]
        keepsD [OF keeps_base_url_steps(5) s6] keepsD [OF keeps_base_url_steps(6) s7]
        keepsD [OF keeps_base_url_steps(7) s8]
      by simp
  qed
  then show ?thesis by (simp add: get_ark_url_def)
qed


theorem ark_base_url_witness:
  "''unknown'' \<noteq> ''BytePlus'' \<and>
   get_ark_url ''unknown'' False = ''https://ark.cn-beijing.volces.com/api/v3'' \<and>
   get_ark_url ''unknown'' True = ''https://ark.cn-beijing.volces.com/api/coding/v3'' \<and>
   ark_api_key (no_creds\<lparr>ark_api_key := ''k1'', ark_model_id := ''m1''\<rparr>) \<noteq> [] \<and>
   ark_model_id (no_creds\<lparr>ark_api_key := ''k1'', ark_model_id := ''m1''\<rparr>) \<noteq> [] \<and>
   document (main_config (no_creds\<lparr>ark_api_key := ''k1'', ark_model_id := ''m1''\<rparr>)
     (Some (JDict [(''models'', JDict [(''providers'', JDict [(''ark'', JDict
        [(''baseUrl'', JStr ''http://old''), (''extra'', JInt 1)])])])]))
     ''BytePlus'' ''i-1'' (\<lambda>_. 0) ''2026-11-03T00:00:00.000Z'') \<noteq> None \<and>
   get_path [''models'', ''providers'', ''ark'', ''baseUrl'']
     (the (document (main_config (no_creds\<lparr>ark_api_key := ''k1'', ark_model_id := ''m1''\<rparr>)
       (Some (JDict [(''models'', JDict [(''providers'', JDict [(''ark'', JDict
          [(''baseUrl'', JStr ''http://old''), (''extra'', JInt 1)])])])]))
       ''BytePlus'' ''i-1'' (\<lambda>_. 0) ''2026-11-03T00:00:00.000Z'')))
     = Some (JStr ''https://ark.ap-southeast.bytepluses.com/api/v3'')"
proof -
  let ?c = "no_creds\<lparr>ark_api_key := ''k1'', ark_model_id := ''m1''\<rparr>"
  let ?run = "main_config ?c
     (Some (JDict [(''models'', JDict [(''providers'', JDict [(''ark'', JDict
        [(''baseUrl'', JStr ''http://old''), (''extra'', JInt 1)])])])]))
     ''BytePlus'' ''i-1'' (\<lambda>_. 0) ''2026-11-03T00:00:00.000Z''"
  have "\<exists>out logs. ?run = Inr (out, logs)"
    by (simp add: run_defs no_creds_def ark_config_def deep_merge_Cons deep_merge_Nil)
  then obtain out logs where run: "?run = Inr (out, logs)" by blast
  have c: "ark_api_key ?c \<noteq> []" "ark_model_id ?c \<noteq> []" by (simp_all add: no_creds_def)
  from ark_base_url [of "''unknown''" ?c None "''i-1''" "\<lambda>_. 0" "''2026-11-03T00:00:00.000Z''" out logs]
    ark_base_url [of "''BytePlus''" ?c "Some (JDict [(''models'', JDict [(''providers'', JDict [(''ark'', JDict
        [(''baseUrl'', JStr ''http://old''), (''extra'', JInt 1)])])])])" "''i-1''" "\<lambda>_. 0"
        "''2026-11-03T00:00:00.000Z''" out logs] run c
  show ?thesis by (simp add: document_def no_creds_def)
qed

subsection \<open>The channels section\<close>

lemma keeps_topD:
  "keeps_top proj k P f \<Longrightarrow> f s = Inr s' \<Longrightarrow> get_path [k] (proj s) = Some v \<Longrightarrow> P v \<Longrightarrow>
   \<exists>v'. get_path [k] (proj s') = Some v' \<and> P v'"
  unfolding keeps_top_def by blast

lemma keeps_top_keeps: "keeps proj [k] f \<Longrightarrow> keeps_top proj k P f"
  by (auto simp: keeps_top_def keeps_def)

lemma keeps_top_at_key:
  "(\<And>v v'. f v = Inr v' \<Longrightarrow> P v \<Longrightarrow> P v') \<Longrightarrow> keeps_top id k P (at_key k f)"
  unfolding keeps_top_def
proof (intro allI impI)
  fix s s' v
  assume f: "\<And>v v'. f v = Inr v' \<Longrightarrow> P v \<Longrightarrow> P v'"
    and run: "at_key k f s = Inr s'" and v: "get_path [k] (id s) = Some v" and P: "P v"
  from at_key_Inr [OF run] obtain d w w' where
    "s = JDict d" "map_of d k = Some w" "f w = Inr w'" "s' = JDict (AList.update k w' d)"
    by blast
  with v P f [of w w'] show "\<exists>v'. get_path [k] (id s') = Some v' \<and> P v'"
    by (simp add: update_conv')
qed

lemma keeps_top_seq_Nil: "keeps_top proj k P (seq [])"
  by (simp add: keeps_top_def)

lemma keeps_top_seq_Cons:
  "keeps_top proj k P f \<Longrightarrow> keeps_top proj k P (seq fs) \<Longrightarrow> keeps_top proj k P (seq (f # fs))"
  unfolding keeps_top_def
proof (intro allI impI)
  fix s s' v
  assume f: "\<forall>s s' v. f s = Inr s' \<longrightarrow> get_path [k] (proj s) = Some v \<longrightarrow> P v \<longrightarrow>
               (\<exists>v'. get_path [k] (proj s') = Some v' \<and> P v')"
    and fs: "\<forall>s s' v. seq fs s = Inr s' \<longrightarrow> get_path [k] (proj s) = Some v \<longrightarrow> P v \<longrightarrow>
               (\<exists>v'. get_path [k] (proj s') = Some v' \<and> P v')"
    and run: "seq (f # fs) s = Inr s'" and v: "get_path [k] (proj s) = Some v" and P: "P v"
  from run obtain t where t: "f s = Inr t" "seq fs t = Inr s'" by (auto split: sum.splits)
  from f t(1) v P obtain w where "get_path [k] (proj t) = Some w" "P w" by blast
  with fs t(2) show "\<exists>v'. get_path [k] (proj s') = Some v' \<and> P v'" by blast
qed

lemma keeps_top_cfg: "keeps_top id k P f \<Longrightarrow> keeps_top fst k P (cfg f)"
  by (auto simp: keeps_top_def cfg_def split: sum.splits)

lemma keeps_top_with_gateway_token:
  "(\<And>t. keeps_top fst k P (body t)) \<Longrightarrow> keeps_top fst k P (with_gateway_token body)"
  unfolding keeps_top_def with_gateway_token_def
  by (auto split: sum.splits)

lemma ensure_dict: "ensure k v = Inr v' \<Longrightarrow> is_dict v \<Longrightarrow> is_dict v'"
  by (auto dest!: ensure_Inr)

lemma at_key_dict: "at_key k f v = Inr v' \<Longrightarrow> is_dict v'"
  by (auto dest!: at_key_Inr)

lemma py_setitem_dict: "py_setitem k w v = Inr v' \<Longrightarrow> is_dict v'"
  by (auto dest!: py_setitem_Inr)

lemmas keeps_top_rules = keeps_top_at_key keeps_top_seq_Nil keeps_top_seq_Cons keeps_top_cfg
  keeps_top_with_gateway_token

lemma keeps_top_channels_steps:
  "keeps_top fst ''channels'' is_dict (main_feishu_app_id c)"
  "keeps_top fst ''channels'' is_dict (main_feishu_app_secret c)"
  "keeps_top fst ''channels'' is_dict (main_telegram c)"
  "keeps_top fst ''channels'' is_dict (main_dingtalk c)"
  "keeps_top fst ''channels'' is_dict (main_wecom c)"
  "keeps_top fst ''channels'' is_dict (main_meta now)"
  unfolding step_defs
  by (simp_all add: keeps_top_rules keeps_top_keeps keeps_rules ensure_dict at_key_dict
        py_setitem_dict del: seq.simps)

lemma keeps_top_channels_any_steps:
  "keeps_top fst ''channels'' (\<lambda>_. True) (main_feishu_app_id c)"
  "keeps_top fst ''channels'' (\<lambda>_. True) (main_feishu_app_secret c)"
  "keeps_top fst ''channels'' (\<lambda>_. True) (main_telegram c)"
  "keeps_top fst ''channels'' (\<lambda>_. True) (main_dingtalk c)"
  "keeps_top fst ''channels'' (\<lambda>_. True) (main_wecom c)"
  "keeps_top fst ''channels'' (\<lambda>_. True) (main_meta now)"
  unfolding step_defs
  by (simp_all add: keeps_top_rules keeps_top_keeps keeps_rules del: seq.simps)


lemma keeps_channels_before:
  "keeps fst [''channels''] (main_gateway_token tok)"
  "keeps fst [''channels''] (main_ark c site instance_id)"
  "keeps fst [''channels''] (main_meta now)"
  unfolding step_defs by (simp_all add: keeps_rules del: seq.simps)

lemma keeps_channels_no_creds:
  assumes "feishu_app_id c = []" "feishu_app_secret c = []" "telegram_bot_token c = []"
    "dingtalk_client_id c = [] \<or> dingtalk_client_secret c = []"
    "wecom_token c = [] \<or> wecom_encoding_aes_key c = []"
  shows "keeps fst [''channels''] (main_feishu_app_id c)"
    "keeps fst [''channels''] (main_feishu_app_secret c)"
    "keeps fst [''channels''] (main_telegram c)"
    "keeps fst [''channels''] (main_dingtalk c)"
    "keeps fst [''channels''] (main_wecom c)"
  unfolding step_defs using assms by (auto simp add: keeps_rules simp del: seq.simps)

lemma main_channels_Inr:
  assumes "main_channels s = Inr s'" "is_dict (fst s)"
  shows "get_path [''channels''] (fst s')
     = (case get_path [''channels''] (fst s) of None \<Rightarrow> Some (JDict []) | Some v \<Rightarrow> Some v)"
proof -
  obtain c l where s: "s = (c, l)" by (cases s)
  with assms(2) obtain d where c: "c = JDict d" by (cases c) auto
  from assms(1) s c show ?thesis
    by (auto simp: main_channels_def cfg_def ensure_def update_conv' split: if_splits)
qed

text \<open>
  C9 (amended). The document of every completed run holds a top-level \<^verbatim>\<open>channels\<close> key.
  It is bound to an object whenever the loaded document had no such key or bound it to
  an object; and when no channel credential is resolved it is the empty object if the
  loaded document had no such key, and what the loaded document held otherwise.
\<close>

theorem channels_present:
  assumes run: "main_config c existing site instance_id rnd now = Inr (out, logs)"
  shows
   "(\<exists>v. get_path [''channels''] out = Some v) \<and>
    (get_path [''channels''] (prior existing) = None \<or> 
     (\<exists>d. get_path [''channels''] (prior existing) = Some (JDict d)) \<longrightarrow>
       (\<exists>d. get_path [''channels''] out = Some (JDict d))) \<and>
    (feishu_app_id c = [] \<and> feishu_app_secret c = [] \<and> telegram_bot_token c = [] \<and>
     (dingtalk_client_id c = [] \<or> dingtalk_client_secret c = []) \<and>
     (wecom_token c = [] \<or> wecom_encoding_aes_key c = []) \<longrightarrow>
       get_path [''channels''] out
         = (case get_path [''channels''] (prior existing) of
              None \<Rightarrow> Some (JDict []) | Some v \<Rightarrow> Some v))"
proof -
  from run obtain s0 s1 s2 s3 s4 s5 s6 s7 where
    s0: "main_gateway_token (token_hex 24 rnd)
        (prior existing,
         snd (load_config existing) @ [''Site: '' @ site, ''Instance ID: '' @ instance_id]) = Inr s0" and
    s1: "main_ark c site instance_id s0 = Inr s1" and
    s2: "main_channels s1 = Inr s2" and
    s3: "main_feishu_app_id c s2 = Inr s3" and
    s4: "main_feishu_app_secret c s3 = Inr s4" and
    s5: "main_telegram c s4 = Inr s5" and
    s6: "main_dingtalk c s5 = Inr s6" and
    s7: "main_wecom c s6 = Inr s7" and
    s8: "main_meta now s7 = Inr (out, logs)"
    unfolding main_config_Inr by blast
  have "get_path [''gateway'', ''auth'', ''token''] (fst s1) = Some (JStr (token_hex 24 rnd))"
    using setsD [OF sets_token_gateway s0] keepsD [OF keeps_token_steps(1) s1] by simp
  then have dict1: "is_dict (fst s1)" by (auto simp: get_path_Cons_Some)
  have before: "get_path [''channels''] (fst s1) = get_path [''channels''] (prior existing)"
    using keepsD [OF keeps_channels_before(1) s0] keepsD [OF keeps_channels_before(2) s1] by simp
  have at2: "get_path [''channels''] (fst s2)
     = (case get_path [''channels''] (prior existing) of None \<Rightarrow> Some (JDict []) | Some v \<Rightarrow> Some v)"
    using main_channels_Inr [OF s2 dict1] before by simp
  then obtain v2 where v2: "get_path [''channels''] (fst s2) = Some v2"
    by (auto split: option.splits)
  have carry: "\<exists>v'. get_path [''channels''] out = Some v' \<and> P v'"
    if steps:
      "keeps_top fst ''channels'' P (main_feishu_app_id c)"
      "keeps_top fst ''channels'' P (main_feishu_app_secret c)"
      "keeps_top fst ''channels'' P (main_telegram c)"
      "keeps_top fst ''channels'' P (main_dingtalk c)"
      "keeps_top fst ''channels'' P (main_wecom c)"
      "keeps_top fst ''channels'' P (main_meta now)"
      and P: "P v2" for P
  proof -
    from keeps_topD [OF steps(1) s3 v2 P] obtain v3 where
      "get_path [''channels''] (fst s3) = Some v3" "P v3" by blast
    from keeps_topD [OF steps(2) s4 this] obtain v4 where
      "get_path [''channels''] (fst s4) = Some v4" "P v4" by blast
    from keeps_topD [OF steps(3) s5 this] obtain v5 where
      "get_path [''channels''] (fst s5) = Some v5" "P v5" by blast
    from keeps_topD [OF steps(4) s6 this] obtain v6 where
      "get_path [''channels''] (fst s6) = Some v6" "P v6" by blast
    from keeps_topD [OF steps(5) s7 this] obtain v7 where
      "get_path [''channels''] (fst s7) = Some v7" "P v7" by blast
    from keeps_topD [OF steps(6) s8 this] show ?thesis by simp
  qed
  have present: "\<exists>v. get_path [''channels''] out = Some v"
    using carry [OF keeps_top_channels_any_steps] by blast
  have dict: "\<exists>d. get_path [''channels''] out = Some (JDict d)"
    if "get_path [''channels''] (prior existing) = None \<or> 
        (\<exists>d. get_path [''channels''] (prior existing) = Some (JDict d))"
  proof -
    from that at2 v2 have "is_dict v2" by (auto split: option.splits)
    from carry [OF keeps_top_channels_steps this] obtain v' where
      "get_path [''channels''] out = Some v'" "is_dict v'" by blast
    then show ?thesis by (cases v') auto
  qed
  have same: "get_path [''channels''] out
         = (case get_path [''channels''] (prior existing) of
              None \<Rightarrow> Some (JDict []) | Some v \<Rightarrow> Some v)"
    if "feishu_app_id c = []" "feishu_app_secret c = []" "telegram_bot_token c = []"
     "dingtalk_client_id c = [] \<or> dingtalk_client_secret c = []"
     "wecom_token c = [] \<or> wecom_encoding_aes_key c = []"
    using keepsD [OF keeps_channels_no_creds(1) [OF that] s3]
      keepsD [OF keeps_channels_no_creds(2) [OF that] s4]
      keepsD [OF keeps_channels_no_creds(3) [OF that] s5]
      keepsD [OF keeps_channels_no_creds(4) [OF that] s6]
      keepsD [OF keeps_channels_no_creds(5) [OF that] s7]
      keepsD [OF keeps_channels_before(3) s8] at2
    by simp
  from present dict same show ?thesis by blast
qed


lemma fresh_run:
  "main_config (no_creds\<lparr>ark_coding_plan := coding_plan\<rparr>) None site instance_id rnd now =
   Inr (JDict [(''gateway'', JDict [(''auth'', JDict [(''token'', JStr (token_hex 24 rnd))])]),
               (''channels'', JDict []),
               (''meta'', JDict [(''lastTouchedAt'', JStr now)])],
        [''No existing config, starting fresh...'',
         ''Site: '' @ site,
         ''Instance ID: '' @ instance_id,
         ''Generated gateway auth token: '' @ take 8 (token_hex 24 rnd) @ ''...'',
         ''Skipping ARK config (ARK_API_KEY or ARK_MODEL_ID not set)'',
         ''Skipping Feishu App ID (not set)'',
         ''Skipping Feishu App Secret (not set)'',
         ''Skipping Telegram (not set)'',
         ''Skipping DingTalk (DINGTALK_CLIENT_ID or DINGTALK_CLIENT_SECRET not set)'',
         ''Skipping WeCom (WECOM_TOKEN or WECOM_ENCODING_AES_KEY not set)''])"
  by (simp add: run_defs no_creds_def)

theorem channels_present_witness:
  "get_path [''channels''] (prior None) = None \<and>
   feishu_app_id no_creds = [] \<and> feishu_app_secret no_creds = [] \<and>
   telegram_bot_token no_creds = [] \<and> dingtalk_client_id no_creds = [] \<and>
   wecom_token no_creds = [] \<and>
   document (main_config no_creds None ''unknown'' ''unknown'' (\<lambda>_. 0)
               ''2026-11-03T00:00:00.000Z'') \<noteq> None \<and>
   get_path [''channels'']
     (the (document (main_config no_creds None ''unknown'' ''unknown'' (\<lambda>_. 0)
                       ''2026-11-03T00:00:00.000Z'')))
     = Some (JDict [])"
proof -
  let ?run = "main_config no_creds None ''unknown'' ''unknown'' (\<lambda>_. 0)
                ''2026-11-03T00:00:00.000Z''"
  have "\<exists>out logs. ?run = Inr (out, logs)"
    using fresh_run [of False] by (simp add: no_creds_def)
  then obtain out logs where run: "?run = Inr (out, logs)" by blast
  have p: "get_path [''channels''] (prior None) = None"
    by (simp add: prior_def load_config_def)
  from channels_present [OF run] p run show ?thesis
    by (simp add: document_def no_creds_def)
qed

text \<open>
  C9, as stated, fails: a loaded document that binds \<^verbatim>\<open>channels\<close> to a number keeps that
  number when no channel credential is resolved (line 199 only tests for the key).
\<close>

theorem channels_not_a_mapping:
  "document (main_config no_creds (Some (JDict [(''channels'', JInt 5)]))
               ''unknown'' ''unknown'' (\<lambda>_. 0) ''2026-11-03T00:00:00.000Z'')
   = Some (JDict [(''channels'', JInt 5),
                  (''gateway'', JDict [(''auth'', JDict [(''token'',
                     JStr ''000000000000000000000000000000000000000000000000'')])]),
                  (''meta'', JDict [(''lastTouchedAt'', JStr ''2026-11-03T00:00:00.000Z'')])])"
  by (simp add: run_defs no_creds_def token_hex_zero document_def)

subsection \<open>A fresh run\<close>

text \<open>
  C2 (amended). A run that starts without a configuration file and resolves no
  credential produces exactly \<^verbatim>\<open>gateway.auth.token\<close>, an empty \<^verbatim>\<open>channels\<close> object and
  \<^verbatim>\<open>meta.lastTouchedAt\<close>; the token has 48 hexadecimal digits.
\<close>

theorem fresh_run_document:
  "main_config (no_creds\<lparr>ark_coding_plan := coding_plan\<rparr>) None site instance_id rnd now =
   Inr (JDict [(''gateway'', JDict [(''auth'', JDict [(''token'', JStr (token_hex 24 rnd))])]),
               (''channels'', JDict []),
               (''meta'', JDict [(''lastTouchedAt'', JStr now)])],
        [''No existing config, starting fresh...'',
         ''Site: '' @ site,
         ''Instance ID: '' @ instance_id,
         ''Generated gateway auth token: '' @ take 8 (token_hex 24 rnd) @ ''...'',
         ''Skipping ARK config (ARK_API_KEY or ARK_MODEL_ID not set)'',
         ''Skipping Feishu App ID (not set)'',
         ''Skipping Feishu App Secret (not set)'',
         ''Skipping Telegram (not set)'',
         ''Skipping DingTalk (DINGTALK_CLIENT_ID or DINGTALK_CLIENT_SECRET not set)'',
         ''Skipping WeCom (WECOM_TOKEN or WECOM_ENCODING_AES_KEY not set)'']) \<and>
   length (token_hex 24 rnd) = 48 \<and>
   set (token_hex 24 rnd) \<subseteq> set ''0123456789abcdef''"
  using fresh_run [of coding_plan site instance_id rnd now] set_token_hex [of 24 rnd]
  by (simp only: length_token_hex simp_thms)

theorem fresh_run_document_witness:
  "document (main_config (no_creds\<lparr>ark_coding_plan := True\<rparr>) None ''BytePlus'' ''i-1''
               (\<lambda>_. 0) ''2026-11-03T00:00:00.000Z'')
   = Some (JDict [(''gateway'', JDict [(''auth'', JDict [(''token'', JStr (token_hex 24 (\<lambda>_. 0)))])]),
                  (''channels'', JDict []),
                  (''meta'', JDict [(''lastTouchedAt'', JStr ''2026-11-03T00:00:00.000Z'')])]) \<and>
   length (token_hex 24 (\<lambda>_. 0)) = 48"
  using fresh_run_document [of True "''BytePlus''" "''i-1''" "\<lambda>_. 0" "''2026-11-03T00:00:00.000Z''"]
  by (simp add: document_def)

text \<open>
  C2, as stated, fails twice: the document of a fresh run without credentials has the
  top-level key \<^verbatim>\<open>channels\<close> besides \<^verbatim>\<open>gateway\<close> and \<^verbatim>\<open>meta\<close>, and its token has 48
  characters, not 64.
\<close>

theorem fresh_run_has_channels_and_48:
  "document (main_config no_creds None ''unknown'' ''unknown'' (\<lambda>_. 0)
               ''2026-11-03T00:00:00.000Z'')
   = Some (JDict [(''gateway'', JDict [(''auth'', JDict [(''token'',
                     JStr ''000000000000000000000000000000000000000000000000'')])]),
                  (''channels'', JDict []),
                  (''meta'', JDict [(''lastTouchedAt'', JStr ''2026-11-03T00:00:00.000Z'')])]) \<and>
   length ''000000000000000000000000000000000000000000000000'' = 48 \<and>
   length ''000000000000000000000000000000000000000000000000'' \<noteq> 64"
  by (simp add: run_defs no_creds_def token_hex_zero document_def)

section \<open>Properties of the service loops\<close>














section \<open>Properties of the credential loader\<close>






section \<open>Properties of the memory limits\<close>

lemmas memory_eval = memory_limits_def splitlines_def is_linebreak_def strip_def is_space_def
  startswith_def Let_def py_replace.simps str_nat.simps digit_char_def

text \<open>
  C7. With 1000 MB the directives are \<^verbatim>\<open>MemoryMax=800M\<close> and \<^verbatim>\<open>MemoryHigh=750M\<close>; on a unit
  file whose only \<^verbatim>\<open>[Service]\<close> is the section header, the old directives are gone and
  the new ones follow the header. But line 368 replaces the text \<^verbatim>\<open>[Service]\<close> wherever
  it stands: on a unit file with a comment that mentions \<^verbatim>\<open>[Service]\<close>, the comment line
  is cut in two and the directives are inserted there as well.
\<close>

theorem memory_limits_every_occurrence:
  "memory_limits 1000
     ''[Unit]\<newline>Description=gateway\<newline>[Service]\<newline>MemoryMax=1G\<newline>ExecStart=/bin/true\<newline>  MemoryHigh=2G\<newline>[Install]\<newline>''
   = (Some ''[Unit]\<newline>Description=gateway\<newline>[Service]\<newline>MemoryMax=800M\<newline>MemoryHigh=750M\<newline>ExecStart=/bin/true\<newline>[Install]'',
      [''Total memory: 1000MB, MemoryMax: 800M, MemoryHigh: 750M'',
       ''Memory limits configured in service file'']) \<and>
   memory_limits 1000
     ''# [Service] settings\<newline>[Service]\<newline>ExecStart=/bin/true\<newline>''
   = (Some ''# [Service]\<newline>MemoryMax=800M\<newline>MemoryHigh=750M settings\<newline>[Service]\<newline>MemoryMax=800M\<newline>MemoryHigh=750M\<newline>ExecStart=/bin/true'',
      [''Total memory: 1000MB, MemoryMax: 800M, MemoryHigh: 750M'',
       ''Memory limits configured in service file''])"
  by (simp add: memory_eval)

section \<open>Properties of the WeCom step\<close>

lemma addsD: "adds P ms f \<Longrightarrow> f s = Inr s' \<Longrightarrow> filter P (snd s') = filter P (snd s) @ ms"
  by (cases s; cases s') (simp add: adds_def)

lemma adds_cfg: "adds P [] (cfg f)"
  by (auto simp: adds_def cfg_def split: sum.splits)

lemma adds_log_no: "\<not> P m \<Longrightarrow> adds P [] (log m)"
  by (auto simp: adds_def log_def)

lemma adds_log_yes: "P m \<Longrightarrow> adds P [m] (log m)"
  by (auto simp: adds_def log_def)

lemma adds_Inr: "adds P [] Inr"
  by (simp add: adds_def)

lemma adds_seq_Nil: "adds P [] (seq [])"
  by (simp add: adds_def)

lemma adds_seq_quiet: "adds P [] f \<Longrightarrow> adds P ms (seq fs) \<Longrightarrow> adds P ms (seq (f # fs))"
  unfolding adds_def
proof (intro allI impI)
  fix c l c' l'
  assume f: "\<forall>c l c' l'. f (c, l) = Inr (c', l') \<longrightarrow> filter P l' = filter P l @ []"
    and fs: "\<forall>c l c' l'. seq fs (c, l) = Inr (c', l') \<longrightarrow> filter P l' = filter P l @ ms"
    and run: "seq (f # fs) (c, l) = Inr (c', l')"
  from run obtain c1 l1 where "f (c, l) = Inr (c1, l1)" "seq fs (c1, l1) = Inr (c', l')"
    by (auto split: sum.splits)
  with f fs show "filter P l' = filter P l @ ms" by simp
qed

lemma adds_seq_here: "adds P ms f \<Longrightarrow> adds P [] (seq fs) \<Longrightarrow> adds P ms (seq (f # fs))"
  unfolding adds_def
proof (intro allI impI)
  fix c l c' l'
  assume f: "\<forall>c l c' l'. f (c, l) = Inr (c', l') \<longrightarrow> filter P l' = filter P l @ ms"
    and fs: "\<forall>c l c' l'. seq fs (c, l) = Inr (c', l') \<longrightarrow> filter P l' = filter P l @ []"
    and run: "seq (f # fs) (c, l) = Inr (c', l')"
  from run obtain c1 l1 where "f (c, l) = Inr (c1, l1)" "seq fs (c1, l1) = Inr (c', l')"
    by (auto split: sum.splits)
  with f fs show "filter P l' = filter P l @ ms" by simp
qed

lemma adds_with_gateway_token:
  "(\<And>t. adds P ms (body t)) \<Longrightarrow> adds P ms (with_gateway_token body)"
  by (auto simp: adds_def with_gateway_token_def split: sum.splits)

lemmas quiet_rules = adds_cfg adds_log_no adds_Inr adds_seq_Nil adds_seq_quiet
  adds_with_gateway_token

lemma quiet_steps:
  "adds is_aes_warning [] (main_gateway_token tok)"
  "adds is_aes_warning [] (main_ark c site instance_id)"
  "adds is_aes_warning [] main_channels"
  "adds is_aes_warning [] (main_feishu_app_id c)"
  "adds is_aes_warning [] (main_feishu_app_secret c)"
  "adds is_aes_warning [] (main_telegram c)"
  "adds is_aes_warning [] (main_dingtalk c)"
  "adds is_aes_warning [] (main_meta now)"
  unfolding step_defs
  by (simp_all add: quiet_rules is_aes_warning_def startswith_def del: seq.simps)

lemma wecom_warning:
  assumes "wecom_token c \<noteq> []" "wecom_encoding_aes_key c \<noteq> []"
  shows "adds is_aes_warning
     (if length (wecom_encoding_aes_key c) \<noteq> 43
      then [aes_key_warning (wecom_encoding_aes_key c)] else [])
     (main_wecom c)"
proof -
  have w: "is_aes_warning (aes_key_warning k)" for k
    by (simp add: is_aes_warning_def aes_key_warning_def startswith_def)
  show ?thesis
  proof (cases "length (wecom_encoding_aes_key c) = 43")
    case True
    with assms show ?thesis
      unfolding step_defs
      by (simp add: quiet_rules is_aes_warning_def startswith_def del: seq.simps)
  next
    case False
    have rest: "adds is_aes_warning []
      (seq [cfg (at_key ''channels'' (py_setitem ''wecom''
                    (wecom_block (wecom_token c) (wecom_encoding_aes_key c)))),
             log ''Enabling public access for WeCom...'',
             cfg (ensure ''gateway''),
             cfg (at_key ''gateway'' (py_setitem ''bind'' (JStr ''lan''))),
             cfg (at_key ''gateway'' (ensure ''controlUi'')),
             cfg (at_key ''gateway'' (at_key ''controlUi'' (py_setitem ''enabled'' (JBool True)))),
             cfg (at_key ''gateway'' (at_key ''controlUi''
                    (py_setitem ''allowInsecureAuth'' (JBool True)))),
             seq enable_chat_completions,
             log ''WeCom configured (public access enabled)''])"
      unfolding enable_chat_completions_def
      by (simp add: quiet_rules is_aes_warning_def startswith_def del: seq.simps)
    have q: "adds is_aes_warning [] (log ''Configuring WeCom...'')"
      by (rule adds_log_no) (simp add: is_aes_warning_def startswith_def)
    note adds_seq_quiet [OF q adds_seq_here [OF adds_log_yes [of is_aes_warning, OF w] rest]]
    with False assms show ?thesis
      by (simp add: main_wecom_def del: seq.simps)
  qed
qed


lemma update_twice: "AList.update k v (AList.update k w al) = AList.update k v al"
  by (induction al) auto

lemma update_swap_present:
  "k' \<noteq> k \<Longrightarrow> map_of al k = Some y \<Longrightarrow>
   AList.update k' w (AList.update k v al) = AList.update k v (AList.update k' w al)"
  by (induction al) auto

lemma blind_setitem: "k' \<noteq> k \<Longrightarrow> blind_op k (py_setitem k' v)"
  by (auto simp: blind_op_def update_conv' intro: update_swap_present)

lemma blind_ensure: "k' \<noteq> k \<Longrightarrow> blind_op k (ensure k')"
  by (auto simp: blind_op_def ensure_def update_conv' intro: update_swap_present)

lemma blind_at_key: "k' \<noteq> k \<Longrightarrow> blind_op k (at_key k' g)"
  by (auto simp: blind_op_def at_key_def update_conv' intro: update_swap_present
        split: option.splits sum.splits)

lemma blind_cfg: "blind_op k f \<Longrightarrow> blind k (cfg f)"
  unfolding blind_def
proof (intro allI impI)
  fix d l c' l' y l2
  assume f: "blind_op k f" and run: "cfg f (JDict d, l) = Inr (c', l')" and k: "map_of d k \<noteq> None"
  from run have r: "f (JDict d) = Inr c'" by (simp add: cfg_Inr)
  from f r k obtain d' where "c' = JDict d'" "map_of d' k \<noteq> None"
    "f (JDict (AList.update k y d)) = Inr (JDict (AList.update k y d'))"
    unfolding blind_op_def by blast
  then show "\<exists>d' l2'. c' = JDict d' \<and> map_of d' k \<noteq> None \<and>
      cfg f (JDict (AList.update k y d), l2) = Inr (JDict (AList.update k y d'), l2')"
    by (simp add: cfg_def)
qed

lemma blind_log: "blind k (log m)"
  by (auto simp: blind_def log_def)

lemma blind_seq_Nil: "blind k (seq [])"
  by (auto simp: blind_def)

lemma blind_seq_Cons: "blind k f \<Longrightarrow> blind k (seq fs) \<Longrightarrow> blind k (seq (f # fs))"
  unfolding blind_def
proof (intro allI impI)
  fix d l c' l' y l2
  assume f: "\<forall>d l c' l' y l2. f (JDict d, l) = Inr (c', l') \<longrightarrow> map_of d k \<noteq> None \<longrightarrow>
        (\<exists>d' l2'. c' = JDict d' \<and> map_of d' k \<noteq> None \<and>
              f (JDict (AList.update k y d), l2) = Inr (JDict (AList.update k y d'), l2'))"
    and fs: "\<forall>d l c' l' y l2. seq fs (JDict d, l) = Inr (c', l') \<longrightarrow> map_of d k \<noteq> None \<longrightarrow>
        (\<exists>d' l2'. c' = JDict d' \<and> map_of d' k \<noteq> None \<and>
              seq fs (JDict (AList.update k y d), l2) = Inr (JDict (AList.update k y d'), l2'))"
    and run: "seq (f # fs) (JDict d, l) = Inr (c', l')" and k: "map_of d k \<noteq> None"
  from run obtain c1 l1 where r1: "f (JDict d, l) = Inr (c1, l1)" and r2: "seq fs (c1, l1) = Inr (c', l')"
    by (auto split: sum.splits)
  from f r1 k obtain d1 m1 where d1: "c1 = JDict d1" "map_of d1 k \<noteq> None"
    "f (JDict (AList.update k y d), l2) = Inr (JDict (AList.update k y d1), m1)"
    by blast
  from fs r2 [unfolded d1(1)] d1(2) obtain d' m' where "c' = JDict d'" "map_of d' k \<noteq> None"
    "seq fs (JDict (AList.update k y d1), m1) = Inr (JDict (AList.update k y d'), m')"
    by blast
  with d1(3) show "\<exists>d' l2'. c' = JDict d' \<and> map_of d' k \<noteq> None \<and>
      seq (f # fs) (JDict (AList.update k y d), l2) = Inr (JDict (AList.update k y d'), l2')"
    by simp
qed

lemmas blind_rules = blind_setitem blind_ensure blind_at_key blind_cfg blind_log blind_seq_Nil
  blind_seq_Cons


lemma blind_wecom_rest:
  "blind ''channels'' (seq [log ''Enabling public access for WeCom...'',
             cfg (ensure ''gateway''),
             cfg (at_key ''gateway'' (py_setitem ''bind'' (JStr ''lan''))),
             cfg (at_key ''gateway'' (ensure ''controlUi'')),
             cfg (at_key ''gateway'' (at_key ''controlUi'' (py_setitem ''enabled'' (JBool True)))),
             cfg (at_key ''gateway'' (at_key ''controlUi''
                    (py_setitem ''allowInsecureAuth'' (JBool True)))),
             seq enable_chat_completions,
             log ''WeCom configured (public access enabled)''])"
  "blind ''channels'' (main_meta now)"
  unfolding main_meta_def enable_chat_completions_def
  by (simp_all add: blind_rules del: seq.simps)

lemma wecom_never_fatal:
  assumes run: "main_wecom c s = Inr s7" and meta: "main_meta now s7 = Inr r"
    and creds: "wecom_token c \<noteq> []" "wecom_encoding_aes_key c \<noteq> []" and k': "k' \<noteq> []"
  shows "\<exists>s7' r'. main_wecom (c\<lparr>wecom_encoding_aes_key := k'\<rparr>) s = Inr s7' \<and>
                  main_meta now s7' = Inr r'"
proof -
  let ?W = "\<lambda>k. if length k \<noteq> 43 then log (aes_key_warning k) else Inr"
  let ?B = "\<lambda>k. wecom_block (wecom_token c) k"
  let ?A = "\<lambda>k. cfg (at_key ''channels'' (py_setitem ''wecom'' (?B k)))"
  let ?R = "[log ''Enabling public access for WeCom...'',
             cfg (ensure ''gateway''),
             cfg (at_key ''gateway'' (py_setitem ''bind'' (JStr ''lan''))),
             cfg (at_key ''gateway'' (ensure ''controlUi'')),
             cfg (at_key ''gateway'' (at_key ''controlUi'' (py_setitem ''enabled'' (JBool True)))),
             cfg (at_key ''gateway'' (at_key ''controlUi''
                    (py_setitem ''allowInsecureAuth'' (JBool True)))),
             seq enable_chat_completions,
             log ''WeCom configured (public access enabled)'']"
  have shape: "main_wecom (c\<lparr>wecom_encoding_aes_key := k\<rparr>)
      = seq (log ''Configuring WeCom...'' # ?W k # ?A k # ?R)" if "k \<noteq> []" for k
    using that creds by (simp add: main_wecom_def del: seq.simps)
  obtain cf l where s: "s = (cf, l)" by (cases s)
  let ?k = "wecom_encoding_aes_key c"
  from run shape [OF creds(2)]
  have "seq (log ''Configuring WeCom...'' # ?W ?k # ?A ?k # ?R) (cf, l) = Inr s7"
    by (simp add: s del: seq.simps)
  then obtain s1 s2 s3 where
    s1: "log ''Configuring WeCom...'' (cf, l) = Inr s1" and
    s2: "?W ?k s1 = Inr s2" and
    s3: "?A ?k s2 = Inr s3" and
    rest: "seq ?R s3 = Inr s7"
    unfolding seq_Cons_Inr [of _ "_ # _"] by blast
  from s1 have s1': "s1 = (cf, l @ [''Configuring WeCom...''])" by (simp add: log_def)
  from s2 s1' obtain l2 where s2': "s2 = (cf, l2)" by (auto simp: log_def split: if_splits)
  from s3 s2' obtain c3 where c3: "at_key ''channels'' (py_setitem ''wecom'' (?B ?k)) cf = Inr c3"
    and s3': "s3 = (c3, l2)"
    by (cases s3) (simp add: cfg_Inr)
  from at_key_Inr [OF c3] obtain d v v' where d: "cf = JDict d" "map_of d ''channels'' = Some v"
    "py_setitem ''wecom'' (?B ?k) v = Inr v'" "c3 = JDict (AList.update ''channels'' v' d)"
    by blast
  from py_setitem_Inr [OF d(3)] obtain ch where ch: "v = JDict ch" by blast
  let ?y = "JDict (AList.update ''wecom'' (?B k') ch)"
  let ?d3 = "AList.update ''channels'' v' d"
  have p3: "map_of ?d3 ''channels'' \<noteq> None" by (simp add: update_conv')
  obtain c7 l7 where s7: "s7 = (c7, l7)" by (cases s7)
  obtain l2' where w': "?W k' s1 = Inr (cf, l2')"
    using s1' by (cases "length k' = 43") (simp_all add: log_def)
  have a': "?A k' (cf, l2') = Inr (JDict (AList.update ''channels'' ?y d), l2')"
    using d(1,2) ch by (simp add: cfg_def at_key_def)
  from blind_wecom_rest(1) rest [unfolded s3' d(4) s7] p3
  obtain d7 l7' where d7: "c7 = JDict d7" "map_of d7 ''channels'' \<noteq> None"
    "seq ?R (JDict (AList.update ''channels'' ?y ?d3), l2')
       = Inr (JDict (AList.update ''channels'' ?y d7), l7')"
    unfolding blind_def by blast
  obtain cr lr where r: "r = (cr, lr)" by (cases r)
  from blind_wecom_rest(2) [of now] meta [unfolded s7 d7(1) r] d7(2)
  obtain dr lr' where
    "main_meta now (JDict (AList.update ''channels'' ?y d7), l7')
       = Inr (JDict (AList.update ''channels'' ?y dr), lr')"
    unfolding blind_def by blast
  moreover have "main_wecom (c\<lparr>wecom_encoding_aes_key := k'\<rparr>) s
      = Inr (JDict (AList.update ''channels'' ?y d7), l7')"
    unfolding shape [OF k'] s
    using s1 w' a' d7(3) by (simp add: update_twice del: seq.simps add: seq_Cons_Inr)
  ultimately show ?thesis by blast
qed


lemma sets_wecom_exposure:
  assumes "wecom_token c \<noteq> []" "wecom_encoding_aes_key c \<noteq> []"
  shows "sets fst [''gateway'', ''bind''] (JStr ''lan'') (main_wecom c)"
    "sets fst [''gateway'', ''controlUi'', ''enabled''] (JBool True) (main_wecom c)"
    "sets fst [''gateway'', ''controlUi'', ''allowInsecureAuth''] (JBool True) (main_wecom c)"
    "sets fst [''gateway'', ''http'', ''endpoints'', ''chatCompletions'', ''enabled'']
       (JBool True) (main_wecom c)"
  unfolding step_defs using assms by (simp_all add: keeps_rules sets_rules del: seq.simps)

lemma keeps_gateway_meta: "keeps fst (''gateway'' # ks) (main_meta now)"
  unfolding step_defs by (simp add: keeps_rules del: seq.simps)

text \<open>
  C6. In a completed run with the WeCom token and AES key resolved, whatever the length
  of the key, \<^verbatim>\<open>channels.wecom\<close> is the block of lines 265-270 (enabled, the webhook path
  \<^verbatim>\<open>/wecom\<close>, the token and the key as given), the gateway is bound to \<^verbatim>\<open>lan\<close>, and the
  control UI, its insecure authentication and the chat completions endpoint are
  enabled. The log holds the message
  \<^verbatim>\<open>Warning: EncodingAESKey should be 43 characters (got n)\<close>, \<open>n\<close> the length of the key,
  exactly when the key does not have 43 characters, and then once and as the only
  message that starts with \<^verbatim>\<open>Warning: EncodingAESKey\<close>. The key never decides whether the
  run completes: with any other non-empty key in its place the run completes as well.
\<close>

theorem wecom_aes_key:
  assumes run: "main_config c existing site instance_id rnd now = Inr (out, logs)"
    and creds: "wecom_token c \<noteq> []" "wecom_encoding_aes_key c \<noteq> []"
  shows
   "get_path [''channels'', ''wecom''] out
      = Some (JDict [(''enabled'', JBool True),
                     (''webhookPath'', JStr ''/wecom''),
                     (''token'', JStr (wecom_token c)),
                     (''encodingAESKey'', JStr (wecom_encoding_aes_key c))]) \<and>
    get_path [''gateway'', ''bind''] out = Some (JStr ''lan'') \<and>
    get_path [''gateway'', ''controlUi'', ''enabled''] out = Some (JBool True) \<and>
    get_path [''gateway'', ''controlUi'', ''allowInsecureAuth''] out = Some (JBool True) \<and>
    get_path [''gateway'', ''http'', ''endpoints'', ''chatCompletions'', ''enabled''] out
      = Some (JBool True) \<and>
    ((''Warning: EncodingAESKey should be 43 characters (got ''
        @ str_nat (length (wecom_encoding_aes_key c)) @ '')'') \<in> set logs)
      = (length (wecom_encoding_aes_key c) \<noteq> 43) \<and>
    filter is_aes_warning logs
      = (if length (wecom_encoding_aes_key c) \<noteq> 43
         then [''Warning: EncodingAESKey should be 43 characters (got ''
                 @ str_nat (length (wecom_encoding_aes_key c)) @ '')'']
         else []) \<and>
    (\<forall>k'. k' \<noteq> [] \<longrightarrow>
       (\<exists>out' logs'. main_config (c\<lparr>wecom_encoding_aes_key := k'\<rparr>) existing site
                        instance_id rnd now = Inr (out', logs')))"
proof -
  let ?s = "(prior existing,
         snd (load_config existing) @ [''Site: '' @ site, ''Instance ID: '' @ instance_id])"
  from run obtain s0 s1 s2 s3 s4 s5 s6 s7 where
    s0: "main_gateway_token (token_hex 24 rnd) ?s = Inr s0" and
    s1: "main_ark c site instance_id s0 = Inr s1" and
    s2: "main_channels s1 = Inr s2" and
    s3: "main_feishu_app_id c s2 = Inr s3" and
    s4: "main_feishu_app_secret c s3 = Inr s4" and
    s5: "main_telegram c s4 = Inr s5" and
    s6: "main_dingtalk c s5 = Inr s6" and
    s7: "main_wecom c s6 = Inr s7" and
    s8: "main_meta now s7 = Inr (out, logs)"
    unfolding main_config_Inr by blast
  let ?w = "''Warning: EncodingAESKey should be 43 characters (got ''
        @ str_nat (length (wecom_encoding_aes_key c)) @ '')''"
  have block: "get_path [''channels'', ''wecom''] out
      = Some (JDict [(''enabled'', JBool True),
                     (''webhookPath'', JStr ''/wecom''),
                     (''token'', JStr (wecom_token c)),
                     (''encodingAESKey'', JStr (wecom_encoding_aes_key c))])"
    using setsD [OF sets_wecom [OF creds] s7] keepsD [OF keeps_wecom_steps s8]
    by (simp add: wecom_block_def)
  have exposure: "get_path [''gateway'', ''bind''] out = Some (JStr ''lan'')"
    "get_path [''gateway'', ''controlUi'', ''enabled''] out = Some (JBool True)"
    "get_path [''gateway'', ''controlUi'', ''allowInsecureAuth''] out = Some (JBool True)"
    "get_path [''gateway'', ''http'', ''endpoints'', ''chatCompletions'', ''enabled''] out
       = Some (JBool True)"
    using setsD [OF sets_wecom_exposure(1) [OF creds] s7]
      setsD [OF sets_wecom_exposure(2) [OF creds] s7]
      setsD [OF sets_wecom_exposure(3) [OF creds] s7]
      setsD [OF sets_wecom_exposure(4) [OF creds] s7]
      keepsD [OF keeps_gateway_meta s8]
    by simp_all
  have start: "filter is_aes_warning (snd ?s) = []"
    by (simp add: load_config_def is_aes_warning_def startswith_def split: option.splits)
  have warned: "filter is_aes_warning logs
      = (if length (wecom_encoding_aes_key c) \<noteq> 43 then [?w] else [])"
    using addsD [OF quiet_steps(1) s0] addsD [OF quiet_steps(2) s1] addsD [OF quiet_steps(3) s2]
      addsD [OF quiet_steps(4) s3] addsD [OF quiet_steps(5) s4] addsD [OF quiet_steps(6) s5]
      addsD [OF quiet_steps(7) s6] addsD [OF wecom_warning [OF creds] s7]
      addsD [OF quiet_steps(8) s8] start
    by (simp add: aes_key_warning_def)
  have w: "is_aes_warning ?w"
    by (simp add: is_aes_warning_def startswith_def)
  have "?w \<in> set (filter is_aes_warning logs) \<longleftrightarrow> length (wecom_encoding_aes_key c) \<noteq> 43"
    unfolding warned by simp
  with w have logged: "(?w \<in> set logs) = (length (wecom_encoding_aes_key c) \<noteq> 43)"
    by simp
  moreover have "\<exists>out' logs'. main_config (c\<lparr>wecom_encoding_aes_key := k'\<rparr>) existing site
                        instance_id rnd now = Inr (out', logs')" if "k' \<noteq> []" for k'
  proof -
    let ?c = "c\<lparr>wecom_encoding_aes_key := k'\<rparr>"
    from wecom_never_fatal [OF s7 s8 creds that] obtain s7' r' where
      w: "main_wecom ?c s6 = Inr s7'" and m: "main_meta now s7' = Inr r'" by blast
    have same: "main_ark ?c site instance_id = main_ark c site instance_id"
      "main_feishu_app_id ?c = main_feishu_app_id c"
      "main_feishu_app_secret ?c = main_feishu_app_secret c"
      "main_telegram ?c = main_telegram c"
      "main_dingtalk ?c = main_dingtalk c"
      by (simp_all add: main_ark_def main_feishu_app_id_def main_feishu_app_secret_def
            main_telegram_def main_dingtalk_def)
    have "main_config ?c existing site instance_id rnd now = Inr r'"
      unfolding main_config_Inr same using s0 s1 s2 s3 s4 s5 s6 w m by blast
    then show ?thesis by (cases r') auto
  qed
  ultimately show ?thesis using block exposure warned by blast
qed


theorem wecom_aes_key_witness:
  "wecom_token (no_creds\<lparr>wecom_token := ''w'',
      wecom_encoding_aes_key := ''0123456789012345678901234567890123456789''\<rparr>) \<noteq> [] \<and>
   length ''0123456789012345678901234567890123456789'' = 40 \<and>
   get_path [''channels'', ''wecom'']
     (the (document (main_config (no_creds\<lparr>wecom_token := ''w'',
         wecom_encoding_aes_key := ''0123456789012345678901234567890123456789''\<rparr>)
       None ''unknown'' ''unknown'' (\<lambda>_. 0) ''2026-11-03T00:00:00.000Z'')))
     = Some (JDict [(''enabled'', JBool True),
                    (''webhookPath'', JStr ''/wecom''),
                    (''token'', JStr ''w''),
                    (''encodingAESKey'', JStr ''0123456789012345678901234567890123456789'')]) \<and>
   get_path [''gateway'', ''bind'']
     (the (document (main_config (no_creds\<lparr>wecom_token := ''w'',
         wecom_encoding_aes_key := ''0123456789012345678901234567890123456789''\<rparr>)
       None ''unknown'' ''unknown'' (\<lambda>_. 0) ''2026-11-03T00:00:00.000Z'')))
     = Some (JStr ''lan'') \<and>
   filter is_aes_warning
     (run_logs (main_config (no_creds\<lparr>wecom_token := ''w'',
         wecom_encoding_aes_key := ''0123456789012345678901234567890123456789''\<rparr>)
       None ''unknown'' ''unknown'' (\<lambda>_. 0) ''2026-11-03T00:00:00.000Z''))
     = [''Warning: EncodingAESKey should be 43 characters (got 40)''] \<and>
   length ''0123456789012345678901234567890123456789abc'' = 43 \<and>
   get_path [''channels'', ''wecom'']
     (the (document (main_config (no_creds\<lparr>wecom_token := ''w'',
         wecom_encoding_aes_key := ''0123456789012345678901234567890123456789abc''\<rparr>)
       None ''unknown'' ''unknown'' (\<lambda>_. 0) ''2026-11-03T00:00:00.000Z'')))
     = Some (JDict [(''enabled'', JBool True),
                    (''webhookPath'', JStr ''/wecom''),
                    (''token'', JStr ''w''),
                    (''encodingAESKey'', JStr ''0123456789012345678901234567890123456789abc'')]) \<and>
   filter is_aes_warning
     (run_logs (main_config (no_creds\<lparr>wecom_token := ''w'',
         wecom_encoding_aes_key := ''0123456789012345678901234567890123456789abc''\<rparr>)
       None ''unknown'' ''unknown'' (\<lambda>_. 0) ''2026-11-03T00:00:00.000Z''))
     = []"
proof -
  let ?c40 = "no_creds\<lparr>wecom_token := ''w'',
      wecom_encoding_aes_key := ''0123456789012345678901234567890123456789''\<rparr>"
  let ?c43 = "no_creds\<lparr>wecom_token := ''w'',
      wecom_encoding_aes_key := ''0123456789012345678901234567890123456789abc''\<rparr>"
  let ?r40 = "main_config ?c40 None ''unknown'' ''unknown'' (\<lambda>_. 0) ''2026-11-03T00:00:00.000Z''"
  let ?r43 = "main_config ?c43 None ''unknown'' ''unknown'' (\<lambda>_. 0) ''2026-11-03T00:00:00.000Z''"
  have "\<exists>out logs. ?r40 = Inr (out, logs)"
    by (simp add: run_defs no_creds_def)
  then obtain out40 logs40 where r40: "?r40 = Inr (out40, logs40)" by blast
  have "\<exists>out logs. ?r43 = Inr (out, logs)"
    by (simp add: run_defs no_creds_def)
  then obtain out43 logs43 where r43: "?r43 = Inr (out43, logs43)" by blast
  have c40: "wecom_token ?c40 \<noteq> []" "wecom_encoding_aes_key ?c40 \<noteq> []"
    and c43: "wecom_token ?c43 \<noteq> []" "wecom_encoding_aes_key ?c43 \<noteq> []"
    by (simp_all add: no_creds_def)
  have forty: "str_nat 40 = ''40''"
    by (simp add: str_nat.simps [of 40] str_nat.simps [of 4] digit_char_def)
  from wecom_aes_key [OF r40 c40]
  have t40: "get_path [''channels'', ''wecom''] out40
      = Some (JDict [(''enabled'', JBool True),
                     (''webhookPath'', JStr ''/wecom''),
                     (''token'', JStr (wecom_token ?c40)),
                     (''encodingAESKey'', JStr (wecom_encoding_aes_key ?c40))])"
    "filter is_aes_warning logs40
      = (if length (wecom_encoding_aes_key ?c40) \<noteq> 43
         then [''Warning: EncodingAESKey should be 43 characters (got ''
                 @ str_nat (length (wecom_encoding_aes_key ?c40)) @ '')'']
         else [])"
    and bind40: "get_path [''gateway'', ''bind''] out40 = Some (JStr ''lan'')"
    by blast+
  from wecom_aes_key [OF r43 c43]
  have t43: "get_path [''channels'', ''wecom''] out43
      = Some (JDict [(''enabled'', JBool True),
                     (''webhookPath'', JStr ''/wecom''),
                     (''token'', JStr (wecom_token ?c43)),
                     (''encodingAESKey'', JStr (wecom_encoding_aes_key ?c43))])"
    "filter is_aes_warning logs43
      = (if length (wecom_encoding_aes_key ?c43) \<noteq> 43
         then [''Warning: EncodingAESKey should be 43 characters (got ''
                 @ str_nat (length (wecom_encoding_aes_key ?c43)) @ '')'']
         else [])"
    by blast+
  have d40: "the (document ?r40) = out40" "run_logs ?r40 = logs40"
    unfolding r40 by (simp_all add: document_def run_logs_def)
  have d43: "the (document ?r43) = out43" "run_logs ?r43 = logs43"
    unfolding r43 by (simp_all add: document_def run_logs_def)
  have a40: "get_path [''channels'', ''wecom''] out40
      = Some (JDict [(''enabled'', JBool True),
                     (''webhookPath'', JStr ''/wecom''),
                     (''token'', JStr ''w''),
                     (''encodingAESKey'', JStr ''0123456789012345678901234567890123456789'')])"
    using t40(1) by (simp add: no_creds_def)
  have k40: "wecom_encoding_aes_key ?c40 = ''0123456789012345678901234567890123456789''"
    by (simp add: no_creds_def)
  have len40: "length ''0123456789012345678901234567890123456789'' = 40" by simp
  have b40: "filter is_aes_warning logs40
      = [''Warning: EncodingAESKey should be 43 characters (got 40)'']"
    using t40(2) [unfolded k40 len40 forty] by simp
  have a43: "get_path [''channels'', ''wecom''] out43
      = Some (JDict [(''enabled'', JBool True),
                     (''webhookPath'', JStr ''/wecom''),
                     (''token'', JStr ''w''),
                     (''encodingAESKey'', JStr ''0123456789012345678901234567890123456789abc'')])"
    using t43(1) by (simp add: no_creds_def)
  have k43: "wecom_encoding_aes_key ?c43 = ''0123456789012345678901234567890123456789abc''"
    by (simp add: no_creds_def)
  have len43: "length ''0123456789012345678901234567890123456789abc'' = 43" by simp
  have b43: "filter is_aes_warning logs43 = []"
    using t43(2) [unfolded k43 len43] by simp
  show ?thesis
    unfolding d40 d43 len40 len43 using a40 bind40 b40 a43 b43 c40(1) by simp
qed


end
